theory Spec2Isabelle
  imports Complex_Main "HOL-Library.Sublist"
begin

section \<open>Data model of the signal engine (\<^verbatim>\<open>src/server.ts\<close>)\<close>

text \<open>
  The engine keeps one state object, \<^verbatim>\<open>botState\<close>, with the signal history, the
  latest prices, the status of every signal and the win/loss counters of every strategy.

  JavaScript numbers are modelled by the real number they denote: a comparison of two
  doubles is the comparison of their values, which is all the lifecycle tracker does with
  prices. \<^verbatim>\<open>NaN\<close> and a missing entry of a \<^verbatim>\<open>Record\<close> are both
  \<open>None\<close> of an option: the engine only ever tests such a value for truthiness.

  A \<^verbatim>\<open>Signal\<close> stores its price levels as decimal strings and the tracker reads them
  back with \<^verbatim>\<open>parseFloat\<close>; the record below keeps the numbers read back, so a
  signal whose level texts do not parse is not represented (the generator writes every
  level with \<^verbatim>\<open>toFixed\<close>). The fields \<^verbatim>\<open>time\<close> and \<^verbatim>\<open>analysis\<close> are display
  text that no function of the engine reads, and are left out.
\<close>

datatype status = Active | T1 | T2 | T3 | SL

datatype action = Buy | Sell

record signal =
  signal_id :: string
  traderName :: string
  successRate :: string
  pair_base :: string
  pair_quote :: string
  action :: action
  entry :: real
  stopLoss :: real
  takeProfits_t1 :: real
  takeProfits_t2 :: real
  takeProfits_t3 :: real

record stats =
  wins :: int
  total :: int

record botState =
  signals :: "signal list"
  prices :: "string \<rightharpoonup> real"
  signalStatus :: "string \<rightharpoonup> status"
  traderStats :: "string \<rightharpoonup> stats"
  isLive :: bool

text \<open>
  The counters the source seeds \<^verbatim>\<open>botState.traderStats\<close> with (lines 35--43).
  The fourth name has an e with diaeresis, the character of code \<open>0xEB\<close>.
\<close>

definition seededStats :: "(string \<times> stats) list" where
  "seededStats =
    [(''RSI Oversold (1h)'', \<lparr>wins = 0, total = 0\<rparr>),
     (''Volume Breakout (1h)'', \<lparr>wins = 0, total = 0\<rparr>),
     (''PlanB'', \<lparr>wins = 10, total = 12\<rparr>),
     (''Micha'' @ [CHR 0xEB] @ ''l van de Poppe'', \<lparr>wins = 8, total = 10\<rparr>),
     (''Crypto Rover'', \<lparr>wins = 15, total = 20\<rparr>),
     (''Ash Crypto'', \<lparr>wins = 9, total = 11\<rparr>),
     (''Doctor Profit'', \<lparr>wins = 18, total = 20\<rparr>)]"

definition initialBotState :: botState where
  "initialBotState =
    \<lparr>signals = [], prices = Map.empty, signalStatus = Map.empty,
     traderStats = map_of seededStats, isLive = True\<rparr>"

section \<open>The lifecycle tracker: \<^verbatim>\<open>checkPrices\<close>\<close>

text \<open>\<^verbatim>\<open>botState.signalStatus[id] || 'active'\<close>: a missing status reads as active.\<close>

definition statusOf :: "botState \<Rightarrow> string \<Rightarrow> status" where
  "statusOf st i = (case signalStatus st i of None \<Rightarrow> Active | Some s \<Rightarrow> s)"

text \<open>\<^verbatim>\<open>botState.traderStats[name] || { wins: 0, total: 0 }\<close>.\<close>

definition statsOf :: "botState \<Rightarrow> string \<Rightarrow> stats" where
  "statsOf st n = (case traderStats st n of None \<Rightarrow> \<lparr>wins = 0, total = 0\<rparr> | Some c \<Rightarrow> c)"

text \<open>
  The threshold checks of lines 296--318, in the order of the source. Only a buy signal
  is ever moved; for a sell signal \<^verbatim>\<open>newStatus\<close> stays the old status.
\<close>

definition newStatus :: "signal \<Rightarrow> real \<Rightarrow> status \<Rightarrow> status" where
  "newStatus sg currentPrice status =
    (if action sg = Buy then
       (if currentPrice \<le> stopLoss sg then SL
        else if currentPrice \<ge> takeProfits_t3 sg then T3
        else if currentPrice \<ge> takeProfits_t2 sg \<and> status \<noteq> T2 then T2
        else if currentPrice \<ge> takeProfits_t1 sg \<and> status = Active then T1
        else status)
     else status)"

text \<open>
  The stats update of lines 327--334, run when the new status is \<^verbatim>\<open>'t1'\<close> or
  \<^verbatim>\<open>'sl'\<close>.
\<close>

definition updateStats :: "signal \<Rightarrow> status \<Rightarrow> botState \<Rightarrow> botState" where
  "updateStats sg new st =
    (if new = T1 \<or> new = SL then
       (let isWin = (new = T1);
            currentStats = statsOf st (traderName sg)
        in st\<lparr>traderStats := (traderStats st)(traderName sg \<mapsto>
              \<lparr>wins = wins currentStats + (if isWin then 1 else 0),
               total = total currentStats + 1\<rparr>)\<rparr>)
     else st)"

text \<open>
  The body of \<^verbatim>\<open>botState.signals.forEach\<close> (lines 288--338) for one signal.
  \<^verbatim>\<open>if (!currentPrice) return\<close> skips the signal when the price is missing,
  \<^verbatim>\<open>NaN\<close> or zero. Sending the message and saving the state do not change
  \<^verbatim>\<open>botState\<close>.
\<close>

definition trackSignal :: "signal \<Rightarrow> botState \<Rightarrow> botState" where
  "trackSignal sg st =
    (case prices st (pair_base sg @ pair_quote sg) of
       None \<Rightarrow> st
     | Some currentPrice \<Rightarrow>
         if currentPrice = 0 then st
         else
           (let status = statusOf st (signal_id sg) in
            if status = T3 \<or> status = SL then st
            else
              (let new = newStatus sg currentPrice status in
               if new \<noteq> status then
                 updateStats sg new
                   (st\<lparr>signalStatus := (signalStatus st)(signal_id sg \<mapsto> new)\<rparr>)
               else st)))"

text \<open>
  One run of \<^verbatim>\<open>checkPrices\<close>. The response of the price request is \<open>None\<close> when
  the request fails (the \<^verbatim>\<open>catch\<close> leaves the state as it is), else the list of
  \<^verbatim>\<open>(symbol, parseFloat(price))\<close> pairs of the objects it delivers, written into
  \<^verbatim>\<open>botState.prices\<close> before the signals are walked in the order of the history. A
  price text that does not parse is stored as \<^verbatim>\<open>NaN\<close>, which reads like no price.
\<close>

definition storePrices :: "(string \<times> real option) list \<Rightarrow> botState \<Rightarrow> botState" where
  "storePrices data st =
    st\<lparr>prices := fold (\<lambda>(symbol, price) m. m(symbol := price)) data (prices st)\<rparr>"

definition checkPrices :: "(string \<times> real option) list option \<Rightarrow> botState \<Rightarrow> botState" where
  "checkPrices response st =
    (if \<not> isLive st \<or> signals st = [] then st
     else case response of
       None \<Rightarrow> st
     | Some data \<Rightarrow> fold trackSignal (signals st) (storePrices data st))"

text \<open>
  The step for one signal when the tracker has just read \<open>price\<close> for its symbol, and
  a sequence of tracker runs, one response each.
\<close>

definition tick :: "signal \<Rightarrow> real option \<Rightarrow> botState \<Rightarrow> botState" where
  "tick sg price st =
    trackSignal sg (st\<lparr>prices := (prices st)(pair_base sg @ pair_quote sg := price)\<rparr>)"

definition runTracker :: "(string \<times> real option) list option list \<Rightarrow> botState \<Rightarrow> botState" where
  "runTracker responses st = fold checkPrices responses st"

subsection \<open>Auxiliary notions for the tracker\<close>

text \<open>
  The order in which the tracker can move a status: a status stays, or moves from
  active to anything, from \<open>T1\<close> to \<open>T2\<close>, \<open>T3\<close> or \<open>SL\<close>, from \<open>T2\<close>
  to \<open>T3\<close> or \<open>SL\<close>, and never out of \<open>T3\<close> or \<open>SL\<close>.
\<close>

definition advances :: "status \<Rightarrow> status \<Rightarrow> bool" where
  "advances s s' =
    (s = s' \<or> (case s of Active \<Rightarrow> True | T1 \<Rightarrow> s' = T2 \<or> s' = T3 \<or> s' = SL
                | T2 \<Rightarrow> s' = T3 \<or> s' = SL | T3 \<Rightarrow> False | SL \<Rightarrow> False))"

text \<open>
  A signal is settled in a state when the step of the tracker has nothing to do for it:
  its price is missing or zero, its status is terminal, or the threshold checks return
  the status it has.
\<close>

definition settled :: "signal \<Rightarrow> botState \<Rightarrow> bool" where
  "settled sg st =
    (case prices st (pair_base sg @ pair_quote sg) of
       None \<Rightarrow> True
     | Some price \<Rightarrow>
         price = 0 \<or> statusOf st (signal_id sg) = T3 \<or> statusOf st (signal_id sg) = SL \<or>
         newStatus sg price (statusOf st (signal_id sg)) = statusOf st (signal_id sg))"

text \<open>The invariant of the counters: \<open>0 \<le> wins \<le> total\<close> for every entry.\<close>

definition statsInv :: "botState \<Rightarrow> bool" where
  "statsInv st = (\<forall>n c. traderStats st n = Some c \<longrightarrow> 0 \<le> wins c \<and> wins c \<le> total c)"

text \<open>
  Concrete signals: the buy signal of the scenario of section 8 of the
  specification, and a signal for an instrument so cheap that \<^verbatim>\<open>formatPrice\<close>
  wrote every level as \<^verbatim>\<open>"0.000000"\<close>.
\<close>

definition exampleSignal :: signal where
  "exampleSignal =
    \<lparr>signal_id = ''BTCUSDT-1700000000000'', traderName = ''RSI Oversold (1h)'',
     successRate = ''0%'', pair_base = ''BTC'', pair_quote = ''USDT'', action = Buy,
     entry = 100, stopLoss = 98.5, takeProfits_t1 = 101.2, takeProfits_t2 = 102,
     takeProfits_t3 = 103.5\<rparr>"

definition exampleState :: botState where
  "exampleState = initialBotState\<lparr>signals := [exampleSignal]\<rparr>"

text \<open>
  The state of the scenario after earlier signals of the strategy have left its counters
  at three wins out of five, and a signal of the strategy \<^verbatim>\<open>'Momentum Surge (1h)'\<close>,
  which the generator emits (line 182) and for which no counters are seeded.
\<close>

definition seasonedState :: botState where
  "seasonedState =
    exampleState\<lparr>traderStats :=
      (traderStats exampleState)(''RSI Oversold (1h)'' \<mapsto> \<lparr>wins = 3, total = 5\<rparr>)\<rparr>"

definition surgeSignal :: signal where
  "surgeSignal =
    \<lparr>signal_id = ''ETHUSDT-1700000000000'', traderName = ''Momentum Surge (1h)'',
     successRate = ''0%'', pair_base = ''ETH'', pair_quote = ''USDT'', action = Buy,
     entry = 100, stopLoss = 98.5, takeProfits_t1 = 101.2, takeProfits_t2 = 102,
     takeProfits_t3 = 103.5\<rparr>"

definition dustSignal :: signal where
  "dustSignal =
    \<lparr>signal_id = ''DUSTUSDT-1700000000000'', traderName = ''RSI Oversold (1h)'',
     successRate = ''0%'', pair_base = ''DUST'', pair_quote = ''USDT'', action = Buy,
     entry = 0, stopLoss = 0, takeProfits_t1 = 0, takeProfits_t2 = 0,
     takeProfits_t3 = 0\<rparr>"

section \<open>The indicator: \<^verbatim>\<open>calculateRSI\<close>\<close>

text \<open>
  Lines 100--122. The closing prices are real numbers and the arithmetic is exact; the
  source computes the same expressions on doubles. \<^verbatim>\<open>period\<close> is a parameter with
  default 14, and the engine always calls with the default. Every read \<^verbatim>\<open>closes[i]\<close>
  is in range: the first loop runs for \<open>1 \<le> i \<le> period < length closes\<close>, the second
  for \<open>period < i < length closes\<close>.
\<close>

function seedLoop :: "real list \<Rightarrow> nat \<Rightarrow> nat \<Rightarrow> real \<times> real \<Rightarrow> real \<times> real" where
  "seedLoop closes period i (gains, losses) =
    (if i \<le> period then
       (let change = closes ! i - closes ! (i - 1)
        in if change > 0 then seedLoop closes period (i + 1) (gains + change, losses)
           else seedLoop closes period (i + 1) (gains, losses - change))
     else (gains, losses))"
  by pat_completeness auto
termination
  by (relation "measure (\<lambda>(closes, period, i, acc). Suc period - i)") auto

function smoothLoop :: "real list \<Rightarrow> nat \<Rightarrow> nat \<Rightarrow> real \<times> real \<Rightarrow> real \<times> real" where
  "smoothLoop closes period i (avgGain, avgLoss) =
    (if i < length closes then
       (let change = closes ! i - closes ! (i - 1);
            gain = (if change > 0 then change else 0);
            loss = (if change < 0 then - change else 0)
        in smoothLoop closes period (i + 1)
             ((avgGain * (real period - 1) + gain) / real period,
              (avgLoss * (real period - 1) + loss) / real period))
     else (avgGain, avgLoss))"
  by pat_completeness auto
termination
  by (relation "measure (\<lambda>(closes, period, i, acc). length closes - i)") auto

definition calculateRSI :: "real list \<Rightarrow> nat \<Rightarrow> real" where
  "calculateRSI closes period =
    (if length closes \<le> period then 50
     else
       (case seedLoop closes period 1 (0, 0) of
          (gains, losses) \<Rightarrow>
            (case smoothLoop closes period (period + 1)
                    (gains / real period, losses / real period) of
               (avgGain, avgLoss) \<Rightarrow>
                 if avgLoss = 0 then 100
                 else (let rs = avgGain / avgLoss in 100 - 100 / (1 + rs)))))"

subsection \<open>The computation as the specification words it\<close>

text \<open>
  Section 4.1 of the specification, for period 14: the deltas of successive closes; the
  gain of a delta is the delta when positive and else 0, its loss the negated delta when
  negative and else 0; the seed averages are the sum of the positive deltas and the sum of
  the negated negative deltas among the first 14, each divided by 14; every later delta
  updates both averages by Wilder's smoothing; the result is 100 when the final average
  loss is 0.
\<close>

definition deltas :: "real list \<Rightarrow> real list" where
  "deltas closes = map (\<lambda>i. closes ! i - closes ! (i - 1)) [1..<length closes]"

definition gainOf :: "real \<Rightarrow> real" where
  "gainOf d = (if d > 0 then d else 0)"

definition lossOf :: "real \<Rightarrow> real" where
  "lossOf d = (if d < 0 then - d else 0)"

definition seedAvgGain :: "real list \<Rightarrow> real" where
  "seedAvgGain closes = sum_list (filter (\<lambda>d. d > 0) (take 14 (deltas closes))) / 14"

definition seedAvgLoss :: "real list \<Rightarrow> real" where
  "seedAvgLoss closes =
    sum_list (map uminus (filter (\<lambda>d. d < 0) (take 14 (deltas closes)))) / 14"

definition wilderStep :: "real \<times> real \<Rightarrow> real \<Rightarrow> real \<times> real" where
  "wilderStep avg d = ((fst avg * 13 + gainOf d) / 14, (snd avg * 13 + lossOf d) / 14)"

definition specRSI :: "real list \<Rightarrow> real" where
  "specRSI closes =
    (if length closes \<le> 14 then 50
     else
       (let avg = foldl wilderStep (seedAvgGain closes, seedAvgLoss closes)
                    (drop 14 (deltas closes))
        in if snd avg = 0 then 100 else 100 - 100 / (1 + fst avg / snd avg)))"

text \<open>Two series of 17 closes: one strictly rising, one with a single fall.\<close>

definition risingCloses :: "real list" where
  "risingCloses = [1, 2, 3, 4, 5, 6, 7, 8, 9, 10, 11, 12, 13, 14, 15, 16, 17]"

definition mixedCloses :: "real list" where
  "mixedCloses = [1, 2, 3, 4, 5, 6, 7, 8, 9, 10, 11, 12, 13, 14, 15, 14, 16]"

section \<open>Price formatting: \<^verbatim>\<open>formatPrice\<close>\<close>

text \<open>
  \<^verbatim>\<open>formatPrice\<close> (lines 194--198) chooses the number of fraction digits and calls
  \<^verbatim>\<open>Number.prototype.toFixed\<close>, a built-in of the language. The built-in is modelled
  after its definition in ECMA-262 (section 21.1.3.3), on the real number that the double
  denotes:

  \<^item> a negative number is formatted as \<^verbatim>\<open>"-"\<close> followed by the text of its negation;
  \<^item> a number of magnitude \<open>10\<^sup>2\<^sup>1\<close> or more is not written in fixed notation at all:
    the result is \<^verbatim>\<open>ToString\<close> of the number, which is in exponent notation at that
    magnitude (\<^verbatim>\<open>(1e21).toFixed(2)\<close> is \<^verbatim>\<open>"1e+21"\<close>). The digits of that text
    depend on the binary representation and are not modelled: the result is
    \<open>ViaToString x\<close>;
  \<^item> otherwise \<open>n\<close> is the integer for which \<open>n / 10\<^sup>f - x\<close> is closest to zero, the
    larger one of two, that is \<open>\<lfloor>x * 10\<^sup>f + 1/2\<rfloor>\<close> (\<open>roundHalfUp\<close>); the text is
    \<^verbatim>\<open>"0"\<close> when \<open>n\<close> is zero and else the decimal digits of \<open>n\<close>; it is padded with
    zeros on the left to \<open>f + 1\<close> digits and the point is put before the last \<open>f\<close>
    (\<open>placePoint\<close>).

  More than 100 fraction digits raise a \<^verbatim>\<open>RangeError\<close>.
\<close>

datatype fixed = Fixed string | ViaToString real | RangeError

definition digitChar :: "nat \<Rightarrow> char" where
  "digitChar d = ''0123456789'' ! d"

function decimal :: "nat \<Rightarrow> string" where
  "decimal n = (if n < 10 then [digitChar n] else decimal (n div 10) @ [digitChar (n mod 10)])"
  by pat_completeness auto
termination
  by (relation "measure (\<lambda>n. n)") auto

definition roundHalfUp :: "real \<Rightarrow> nat \<Rightarrow> nat" where
  "roundHalfUp x f = nat \<lfloor>x * 10 ^ f + 1 / 2\<rfloor>"

definition placePoint :: "string \<Rightarrow> nat \<Rightarrow> string" where
  "placePoint m f =
    (if f \<noteq> 0 then
       (let k = length m;
            m' = (if k \<le> f then replicate (f + 1 - k) CHR ''0'' @ m else m);
            k' = (if k \<le> f then f + 1 else k);
            a = take (k' - f) m';
            b = drop (k' - f) m'
        in a @ ''.'' @ b)
     else m)"

definition toFixed :: "real \<Rightarrow> nat \<Rightarrow> fixed" where
  "toFixed x0 f =
    (if f > 100 then RangeError
     else
       (let s = (if x0 < 0 then ''-'' else []);
            x = (if x0 < 0 then - x0 else x0)
        in if x \<ge> 10 ^ 21 then ViaToString x0
           else
             (let n = roundHalfUp x f;
                  m = (if n = 0 then ''0'' else decimal n)
              in Fixed (s @ placePoint m f))))"

text \<open>
  The literal \<^verbatim>\<open>0.01\<close> is the double next above \<open>1/100\<close>, and no double lies between the
  two, so for a double \<open>p\<close> the test \<^verbatim>\<open>p < 0.01\<close> is \<open>p < 1/100\<close>.
\<close>

definition formatPrice :: "real \<Rightarrow> fixed" where
  "formatPrice p =
    (if p < 1 / 100 then toFixed p 6
     else if p < 1 then toFixed p 4
     else toFixed p 2)"

text \<open>Reading a text of decimal digits as a number, and the test for a digit.\<close>

definition isDigit :: "char \<Rightarrow> bool" where
  "isDigit c = (c \<in> set ''0123456789'')"

definition digitValue :: "char \<Rightarrow> nat" where
  "digitValue c = of_char c - 48"

definition digitsValue :: "string \<Rightarrow> nat" where
  "digitsValue cs = foldl (\<lambda>v c. 10 * v + digitValue c) 0 cs"

section \<open>The signal generator: \<^verbatim>\<open>fetchLiveSignals\<close>\<close>

subsection \<open>Built-ins of the language used by the generator\<close>

text \<open>
  Strings are lists of characters, one per code unit; code units above 255 do not occur
  in the symbols and ids of the engine and are not represented.

  \<^verbatim>\<open>s.replace(pat, '')\<close> removes the first occurrence of \<open>pat\<close>;
  \<^verbatim>\<open>s.split(sep)\<close> cuts at every occurrence of the separator.
\<close>

fun replaceFirst :: "string \<Rightarrow> string \<Rightarrow> string" where
  "replaceFirst pat [] = []"
| "replaceFirst pat (c # cs) =
    (if prefix pat (c # cs) then drop (length pat) (c # cs) else c # replaceFirst pat cs)"

fun splitOn :: "char \<Rightarrow> string \<Rightarrow> string list" where
  "splitOn sep [] = [[]]"
| "splitOn sep (c # cs) =
    (if c = sep then [] # splitOn sep cs
     else (case splitOn sep cs of [] \<Rightarrow> [[c]] | piece # pieces \<Rightarrow> (c # piece) # pieces))"

text \<open>
  \<^verbatim>\<open>parseInt(string)\<close> without a radix, after ECMA-262 (section 19.2.5): leading white
  space is dropped, then a sign, then a prefix \<^verbatim>\<open>0x\<close> or \<^verbatim>\<open>0X\<close> that selects radix
  16; the longest run of digits of the radix is the number, and there is no number
  (\<^verbatim>\<open>NaN\<close>, here \<open>None\<close>) when that run is empty. The result is kept as the exact
  integer; the source has the nearest double, which is the same below \<open>2\<^sup>5\<^sup>3\<close>.
\<close>

definition isWhiteSpace :: "char \<Rightarrow> bool" where
  "isWhiteSpace c = (of_char c \<in> {9, 10, 11, 12, 13, 32, 160 :: nat})"

definition radixDigit :: "nat \<Rightarrow> char \<Rightarrow> nat option" where
  "radixDigit R c =
    (let n = (of_char c :: nat);
         d = (if 48 \<le> n \<and> n \<le> 57 then Some (n - 48)
              else if 97 \<le> n \<and> n \<le> 102 then Some (n - 87)
              else if 65 \<le> n \<and> n \<le> 70 then Some (n - 55)
              else None)
     in case d of None \<Rightarrow> None | Some v \<Rightarrow> if v < R then Some v else None)"

definition radixValue :: "nat \<Rightarrow> string \<Rightarrow> nat" where
  "radixValue R Z =
    foldl (\<lambda>v c. R * v + (case radixDigit R c of None \<Rightarrow> 0 | Some d \<Rightarrow> d)) 0 Z"

definition parseInt :: "string \<Rightarrow> int option" where
  "parseInt inputString =
    (let S = dropWhile isWhiteSpace inputString;
         sign = (if S \<noteq> [] \<and> hd S = CHR ''-'' then - 1 else 1 :: int);
         S1 = (if S \<noteq> [] \<and> (hd S = CHR ''+'' \<or> hd S = CHR ''-'') then tl S else S);
         hex = (prefix ''0x'' S1 \<or> prefix ''0X'' S1);
         R = (if hex then 16 else 10 :: nat);
         S2 = (if hex then drop 2 S1 else S1);
         Z = takeWhile (\<lambda>c. radixDigit R c \<noteq> None) S2
     in if Z = [] then None else Some (sign * int (radixValue R Z)))"

text \<open>
  The text of an integer in a template string, as \<^verbatim>\<open>Date.now()\<close> is written into
  the id (an integer of magnitude below \<open>10\<^sup>2\<^sup>1\<close>).
\<close>

definition intToString :: "int \<Rightarrow> string" where
  "intToString n = (if n < 0 then CHR ''-'' # decimal (nat (- n)) else decimal (nat n))"

subsection \<open>The dedup gate and the emission\<close>

text \<open>
  A candidate is one element of \<^verbatim>\<open>usdtPairs\<close> together with what the loop body
  computes and reads for it before the gate:

  \<^item> the outcome of the analysis of its klines (lines 153--185), which is the name of the
    first strategy that matched, or the empty string when none did or the klines could not
    be fetched;
  \<^item> the text of the success rate (line 204) and the five price levels as the tracker will
    read them back from the formatted texts (lines 188--192 and 233--235). The source
    computes them in double arithmetic (\<^verbatim>\<open>currentPrice * 0.985\<close>,
    \<^verbatim>\<open>Math.round((wins / total) * 100)\<close>, \<^verbatim>\<open>parseFloat\<close> of a \<^verbatim>\<open>toFixed\<close> text),
    whose roundings are not those of exact arithmetic; the model takes the results as
    given and computes none of them;
  \<^item> the two readings of the clock, \<^verbatim>\<open>Date.now()\<close> in the cooldown test (line 219) and
    in the id (line 225).
\<close>

record candidate =
  symbol :: string
  strategyName :: string
  successRateText :: string
  entryLevel :: real
  stopLossLevel :: real
  t1Level :: real
  t2Level :: real
  t3Level :: real
  nowCheck :: int
  nowId :: int

text \<open>\<^verbatim>\<open>['active', 't1', 't2'].includes(status)\<close>.\<close>

definition isOpen :: "status \<Rightarrow> bool" where
  "isOpen s = (s = Active \<or> s = T1 \<or> s = T2)"

definition baseCoinOf :: "string \<Rightarrow> string" where
  "baseCoinOf ticker = replaceFirst ''USDT'' ticker"

definition activeSignalForCoin :: "botState \<Rightarrow> string \<Rightarrow> signal option" where
  "activeSignalForCoin st baseCoin =
    find (\<lambda>s. pair_base s = baseCoin \<and> isOpen (statusOf st (signal_id s))) (signals st)"

definition lastSignalForCoin :: "botState \<Rightarrow> string \<Rightarrow> signal option" where
  "lastSignalForCoin st baseCoin = find (\<lambda>s. pair_base s = baseCoin) (signals st)"

text \<open>
  \<^verbatim>\<open>parseInt(id.split('-')[1])\<close>: the second piece of the id, read as an integer. An
  id without a dash has no second piece, and \<^verbatim>\<open>parseInt(undefined)\<close> is \<^verbatim>\<open>NaN\<close>.
\<close>

definition idTimestamp :: "string \<Rightarrow> int option" where
  "idTimestamp i =
    (case splitOn CHR ''-'' i of
       first # piece # rest \<Rightarrow> parseInt piece
     | _ \<Rightarrow> None)"

definition isRecent :: "botState \<Rightarrow> string \<Rightarrow> int \<Rightarrow> bool" where
  "isRecent st baseCoin now =
    (case lastSignalForCoin st baseCoin of
       None \<Rightarrow> False
     | Some s \<Rightarrow>
         (case idTimestamp (signal_id s) of
            None \<Rightarrow> False
          | Some timestamp \<Rightarrow> now - timestamp < 60 * 60 * 1000))"

text \<open>
  The object pushed to \<^verbatim>\<open>newSignals\<close> (lines 225--237). \<^verbatim>\<open>action\<close> is
  \<^verbatim>\<open>'buy'\<close> in every branch of the source.
\<close>

definition buildSignal :: "candidate \<Rightarrow> signal" where
  "buildSignal c =
    \<lparr>signal_id = symbol c @ ''-'' @ intToString (nowId c),
     traderName = strategyName c,
     successRate = successRateText c,
     pair_base = baseCoinOf (symbol c), pair_quote = ''USDT'', action = Buy,
     entry = entryLevel c, stopLoss = stopLossLevel c, takeProfits_t1 = t1Level c,
     takeProfits_t2 = t2Level c, takeProfits_t3 = t3Level c\<rparr>"

text \<open>
  The body of the loop over \<^verbatim>\<open>usdtPairs\<close> from line 187 on, for one candidate: the
  signal it pushes, if any. It runs without interruption (there is no \<^verbatim>\<open>await\<close>
  after the klines are read) and reads \<^verbatim>\<open>botState\<close> as it is at that moment.
\<close>

definition analyse :: "botState \<Rightarrow> candidate \<Rightarrow> signal option" where
  "analyse st c =
    (if strategyName c = [] then None
     else
       (let baseCoin = baseCoinOf (symbol c) in
        if activeSignalForCoin st baseCoin = None \<and> \<not> isRecent st baseCoin (nowCheck c)
        then Some (buildSignal c)
        else None))"

text \<open>\<^verbatim>\<open>botState.signals.unshift(signal); botState.signalStatus[signal.id] = 'active'\<close>.\<close>

definition addSignal :: "signal \<Rightarrow> botState \<Rightarrow> botState" where
  "addSignal sg st =
    st\<lparr>signals := sg # signals st, signalStatus := (signalStatus st)(signal_id sg \<mapsto> Active)\<rparr>"

subsection \<open>Runs that interleave\<close>

text \<open>
  \<^verbatim>\<open>fetchLiveSignals\<close> and \<^verbatim>\<open>checkPrices\<close> are asynchronous functions started by
  timers (lines 345--348), with no guard against a run that starts while another is
  under way. Between two \<^verbatim>\<open>await\<close>s a run is not interrupted; at an
  \<^verbatim>\<open>await\<close> any other run may proceed. The pieces that run without interruption
  are the events of the model:

  \<^item> \<open>Examine r c\<close>: run \<open>r\<close> of the generator has read the klines of candidate \<open>c\<close>
    and executes the rest of the loop body (lines 157--238): the gate reads the state
    of that moment, and a signal that passes is pushed to the run's own list
    \<^verbatim>\<open>newSignals\<close>, not yet to the history;
  \<^item> \<open>Insert r\<close>: the loop of run \<open>r\<close> is over and the run puts its list in front of
    the history, one signal after the other, each with status active (lines 246--267);
  \<^item> \<open>Track response\<close>: a run of the tracker has its response and stores the prices
    and walks the signals (lines 282--338), which is \<open>checkPrices\<close>.

  An execution of the engine is a list of events. One run \<open>r\<close> of
  \<^verbatim>\<open>fetchLiveSignals\<close> contributes \<open>Examine r c\<close> for its candidates, in the
  order of \<^verbatim>\<open>usdtPairs\<close>, and then \<open>Insert r\<close>; the events of other runs of the
  generator and of the tracker may lie anywhere in between.

  The state of the engine is \<^verbatim>\<open>botState\<close> together with the list \<^verbatim>\<open>newSignals\<close>
  of every run of the generator, empty for a run that has pushed nothing or is over. A
  run of the generator tests \<^verbatim>\<open>isLive\<close> once, when it starts (line 125); no function
  of the engine writes \<^verbatim>\<open>isLive\<close>, so the run's events find the value it had then.
  A tracker run whose first test (line 275) saw an empty history before its
  \<^verbatim>\<open>await\<close> does nothing, like a failed request.
\<close>

datatype event =
    Examine nat candidate
  | Insert nat
  | Track "(string \<times> real option) list option"

type_synonym engine = "botState \<times> (nat \<Rightarrow> signal list)"

fun step :: "event \<Rightarrow> engine \<Rightarrow> engine" where
  "step (Examine r c) (st, pending) =
    (if isLive st
     then (st, pending(r := pending r @ (case analyse st c of None \<Rightarrow> [] | Some sg \<Rightarrow> [sg])))
     else (st, pending))"
| "step (Insert r) (st, pending) =
    (if isLive st then (fold addSignal (pending r) st, pending(r := []))
     else (st, pending))"
| "step (Track response) (st, pending) = (checkPrices response st, pending)"

definition run :: "event list \<Rightarrow> engine \<Rightarrow> engine" where
  "run events cfg = fold step events cfg"

definition initialEngine :: engine where
  "initialEngine = (initialBotState, \<lambda>r. [])"

text \<open>
  One run of \<^verbatim>\<open>fetchLiveSignals\<close> during which nothing else happens: every candidate
  is examined in the order of \<^verbatim>\<open>usdtPairs\<close>, then the list is inserted. The response
  is \<open>None\<close> when the ticker request fails (the \<^verbatim>\<open>catch\<close> leaves the state as it
  is). All gates of such a run read the state from before the run; \<open>newSignals\<close> is
  the list they push.
\<close>

definition fetchLiveSignals :: "candidate list option \<Rightarrow> botState \<Rightarrow> botState" where
  "fetchLiveSignals response st =
    (if \<not> isLive st then st
     else case response of
       None \<Rightarrow> st
     | Some usdtPairs \<Rightarrow> fst (run (map (Examine 0) usdtPairs @ [Insert 0]) (st, \<lambda>r. [])))"

definition newSignals :: "botState \<Rightarrow> candidate list \<Rightarrow> signal list" where
  "newSignals st usdtPairs = List.map_filter (analyse st) usdtPairs"

subsection \<open>Notions for the dedup gate\<close>














text \<open>
  Concrete inputs. The candidates are one instrument at the close 100, examined at four
  moments: at the start, one minute later, 60 minutes later and 7600 seconds later. The
  levels are those the source computes for the close 100. The signals are what the first,
  second and fourth candidate yield; the first is the signal of the scenario.
\<close>

definition btcCandidate :: candidate where
  "btcCandidate =
    \<lparr>symbol = ''BTCUSDT'', strategyName = ''RSI Oversold (1h)'', successRateText = ''0%'',
     entryLevel = 100, stopLossLevel = 98.5, t1Level = 101.2, t2Level = 102,
     t3Level = 103.5, nowCheck = 1700000000000, nowId = 1700000000000\<rparr>"









section \<open>A run of the generator without interruption\<close>

text \<open>
  While a run examines its candidates the state does not change, so an uninterrupted run
  pushes exactly the signals whose gates pass on the state from before the run, and
  inserts them.
\<close>

lemma examine_all:
  "isLive st \<Longrightarrow>
    fold step (map (Examine r) cs) (st, pending) = (st, pending(r := pending r @ newSignals st cs))"
proof (induction cs arbitrary: pending)
  case Nil
  then show ?case by (simp add: newSignals_def map_filter_simps)
next
  case (Cons c cs)
  show ?case
  proof (cases "analyse st c")
    case None
    with Cons show ?thesis by (simp add: newSignals_def map_filter_simps)
  next
    case (Some sg)
    with Cons show ?thesis by (simp add: newSignals_def map_filter_simps fun_eq_iff)
  qed
qed

lemma fetchLiveSignals_atomic:
  "fetchLiveSignals (Some usdtPairs) st =
    (if isLive st then fold addSignal (newSignals st usdtPairs) st else st)"
  by (simp add: fetchLiveSignals_def run_def examine_all)

lemma traderStats_fold_addSignal: "traderStats (fold addSignal ns st) = traderStats st"
  by (induction ns arbitrary: st) (simp_all add: addSignal_def)

lemma isLive_fold_addSignal: "isLive (fold addSignal ns st) = isLive st"
  by (induction ns arbitrary: st) (simp_all add: addSignal_def)
section \<open>Properties of the lifecycle tracker\<close>

lemmas tracker_defs = runTracker_def checkPrices_def storePrices_def trackSignal_def tick_def
  newStatus_def updateStats_def statusOf_def statsOf_def Let_def

lemmas example_defs = exampleSignal_def exampleState_def initialBotState_def seededStats_def

subsection \<open>Statuses only advance\<close>

lemma advances_refl: "advances s s"
  by (simp add: advances_def)

lemma advances_trans: "advances a b \<Longrightarrow> advances b c \<Longrightarrow> advances a c"
  by (cases a; cases b; cases c) (simp_all add: advances_def)

lemma newStatus_advances: "s \<noteq> T3 \<Longrightarrow> s \<noteq> SL \<Longrightarrow> advances s (newStatus sg p s)"
  by (cases s) (simp_all add: newStatus_def advances_def)

lemma signalStatus_updateStats: "signalStatus (updateStats sg new st) = signalStatus st"
  by (simp add: updateStats_def Let_def)

lemma statusOf_updateStats: "statusOf (updateStats sg new st) i = statusOf st i"
  by (simp add: statusOf_def signalStatus_updateStats)

lemma trackSignal_advances: "advances (statusOf st i) (statusOf (trackSignal sg st) i)"
proof (cases "prices st (pair_base sg @ pair_quote sg)")
  case None
  then show ?thesis by (simp add: trackSignal_def advances_refl)
next
  case (Some p)
  show ?thesis
  proof (cases "p = 0 \<or> statusOf st (signal_id sg) = T3 \<or> statusOf st (signal_id sg) = SL
      \<or> newStatus sg p (statusOf st (signal_id sg)) = statusOf st (signal_id sg)")
    case True
    with Some show ?thesis by (auto simp add: trackSignal_def Let_def advances_refl)
  next
    case False
    with Some have eq: "trackSignal sg st = updateStats sg (newStatus sg p (statusOf st (signal_id sg)))
        (st\<lparr>signalStatus := (signalStatus st)(signal_id sg \<mapsto> newStatus sg p (statusOf st (signal_id sg)))\<rparr>)"
      by (simp add: trackSignal_def Let_def)
    show ?thesis
    proof (cases "i = signal_id sg")
      case True
      with False show ?thesis
        unfolding eq statusOf_updateStats
        using newStatus_advances [of "statusOf st (signal_id sg)" sg p]
        by (simp add: statusOf_def)
    next
      case False
      then show ?thesis
        unfolding eq statusOf_updateStats by (simp add: statusOf_def advances_refl)
    qed
  qed
qed

lemma fold_trackSignal_advances:
  "advances (statusOf st i) (statusOf (fold trackSignal sgs st) i)"
proof (induction sgs arbitrary: st)
  case Nil
  show ?case by (simp add: advances_refl)
next
  case (Cons sg sgs)
  show ?case
    using advances_trans [OF trackSignal_advances [of st i sg] Cons.IH [of "trackSignal sg st"]]
    by simp
qed

lemma statusOf_storePrices: "statusOf (storePrices data st) i = statusOf st i"
  by (simp add: statusOf_def storePrices_def)

lemma checkPrices_advances: "advances (statusOf st i) (statusOf (checkPrices r st) i)"
proof (cases "\<not> isLive st \<or> signals st = [] \<or> r = None")
  case True
  then show ?thesis by (auto simp add: checkPrices_def advances_refl)
next
  case False
  then obtain data where r: "r = Some data" by auto
  from False r have "checkPrices r st = fold trackSignal (signals st) (storePrices data st)"
    by (simp add: checkPrices_def)
  then show ?thesis
    using fold_trackSignal_advances [of "storePrices data st" i "signals st"]
    by (simp add: statusOf_storePrices)
qed

lemma runTracker_advances: "advances (statusOf st i) (statusOf (runTracker rs st) i)"
proof (induction rs arbitrary: st)
  case Nil
  show ?case by (simp add: runTracker_def advances_refl)
next
  case (Cons r rs)
  show ?case
    using advances_trans [OF checkPrices_advances [of st i r] Cons.IH [of "checkPrices r st"]]
    by (simp add: runTracker_def)
qed

text \<open>
  Claim C2. Status transitions of the tracker are monotone, for every signal id \<open>i\<close>
  and every sequence \<open>rs\<close> of tracker runs, whatever prices they read: a status that
  is \<open>T1\<close> is never active again; a terminal status (\<open>T3\<close> or \<open>SL\<close>) never
  changes; a status that is \<open>T2\<close> never goes back to active or \<open>T1\<close>, and a buy
  signal at \<open>T2\<close> does advance to \<open>SL\<close> on a price at or below its stop loss and to
  \<open>T3\<close> on a price above the stop loss that reaches the third target.
\<close>

theorem status_transitions_monotone:
  "(statusOf st i = T1 \<longrightarrow> statusOf (runTracker rs st) i \<noteq> Active) \<and>
   (statusOf st i = T3 \<or> statusOf st i = SL \<longrightarrow>
      statusOf (runTracker rs st) i = statusOf st i) \<and>
   (statusOf st i = T2 \<longrightarrow>
      statusOf (runTracker rs st) i \<noteq> Active \<and> statusOf (runTracker rs st) i \<noteq> T1) \<and>
   (statusOf st (signal_id sg) = T2 \<and> action sg = Buy \<and> p \<noteq> 0 \<longrightarrow>
      (p \<le> stopLoss sg \<longrightarrow> statusOf (tick sg (Some p) st) (signal_id sg) = SL) \<and>
      (stopLoss sg < p \<and> takeProfits_t3 sg \<le> p \<longrightarrow>
         statusOf (tick sg (Some p) st) (signal_id sg) = T3))"
proof -
  have adv: "advances (statusOf st i) (statusOf (runTracker rs st) i)"
    by (rule runTracker_advances)
  have a: "statusOf st i = T1 \<longrightarrow> statusOf (runTracker rs st) i \<noteq> Active"
    using adv by (auto simp add: advances_def)
  have b: "statusOf st i = T3 \<or> statusOf st i = SL \<longrightarrow>
      statusOf (runTracker rs st) i = statusOf st i"
    using adv by (auto simp add: advances_def)
  have c: "statusOf st i = T2 \<longrightarrow>
      statusOf (runTracker rs st) i \<noteq> Active \<and> statusOf (runTracker rs st) i \<noteq> T1"
    using adv by (auto simp add: advances_def)
  have d: "statusOf st (signal_id sg) = T2 \<and> action sg = Buy \<and> p \<noteq> 0 \<longrightarrow>
      (p \<le> stopLoss sg \<longrightarrow> statusOf (tick sg (Some p) st) (signal_id sg) = SL) \<and>
      (stopLoss sg < p \<and> takeProfits_t3 sg \<le> p \<longrightarrow>
         statusOf (tick sg (Some p) st) (signal_id sg) = T3)"
    by (auto simp add: tick_def trackSignal_def Let_def statusOf_def newStatus_def
        updateStats_def)
  from a b c d show ?thesis by blast
qed

theorem status_transitions_monotone_witness:
  "statusOf (exampleState\<lparr>signalStatus := [signal_id exampleSignal \<mapsto> T1]\<rparr>)
      (signal_id exampleSignal) = T1 \<and>
   statusOf (runTracker [Some [(''BTCUSDT'', Some 100)], Some [(''BTCUSDT'', Some 102.5)]]
      (exampleState\<lparr>signalStatus := [signal_id exampleSignal \<mapsto> T1]\<rparr>))
      (signal_id exampleSignal) = T2 \<and>
   statusOf (exampleState\<lparr>signalStatus := [signal_id exampleSignal \<mapsto> SL]\<rparr>)
      (signal_id exampleSignal) = SL \<and>
   statusOf (runTracker [Some [(''BTCUSDT'', Some 104)]]
      (exampleState\<lparr>signalStatus := [signal_id exampleSignal \<mapsto> SL]\<rparr>))
      (signal_id exampleSignal) = SL \<and>
   statusOf (exampleState\<lparr>signalStatus := [signal_id exampleSignal \<mapsto> T2]\<rparr>)
      (signal_id exampleSignal) = T2 \<and>
   statusOf (runTracker [Some [(''BTCUSDT'', Some 101.5)]]
      (exampleState\<lparr>signalStatus := [signal_id exampleSignal \<mapsto> T2]\<rparr>))
      (signal_id exampleSignal) = T2 \<and>
   action exampleSignal = Buy \<and> (98::real) \<le> stopLoss exampleSignal \<and>
   statusOf (tick exampleSignal (Some 98)
      (exampleState\<lparr>signalStatus := [signal_id exampleSignal \<mapsto> T2]\<rparr>))
      (signal_id exampleSignal) = SL \<and>
   stopLoss exampleSignal < (104::real) \<and> takeProfits_t3 exampleSignal \<le> (104::real) \<and>
   statusOf (tick exampleSignal (Some 104)
      (exampleState\<lparr>signalStatus := [signal_id exampleSignal \<mapsto> T2]\<rparr>))
      (signal_id exampleSignal) = T3"
  using
    status_transitions_monotone [of "exampleState\<lparr>signalStatus := [signal_id exampleSignal \<mapsto> T1]\<rparr>"
      "signal_id exampleSignal" "[Some [(''BTCUSDT'', Some 100)], Some [(''BTCUSDT'', Some 102.5)]]"
      exampleSignal 98]
    status_transitions_monotone [of "exampleState\<lparr>signalStatus := [signal_id exampleSignal \<mapsto> SL]\<rparr>"
      "signal_id exampleSignal" "[Some [(''BTCUSDT'', Some 104)]]" exampleSignal 98]
    status_transitions_monotone [of "exampleState\<lparr>signalStatus := [signal_id exampleSignal \<mapsto> T2]\<rparr>"
      "signal_id exampleSignal" "[Some [(''BTCUSDT'', Some 101.5)]]" exampleSignal 98]
    status_transitions_monotone [of "exampleState\<lparr>signalStatus := [signal_id exampleSignal \<mapsto> T2]\<rparr>"
      "signal_id exampleSignal" "[]" exampleSignal 104]
  by (simp add: tracker_defs example_defs)

subsection \<open>The stop loss is checked first\<close>

text \<open>
  Claim C3, as the source has it. For every buy signal whose status is not terminal and
  every current price other than zero, a price at or below the stop loss makes the status
  \<open>SL\<close> after one step of the tracker, whatever targets the price reaches as well: the
  stop-loss check comes before every target check. A price of zero is excluded because
  \<^verbatim>\<open>if (!currentPrice) return\<close> treats it like a missing price and skips the signal.
\<close>

theorem stop_loss_dominates:
  assumes "action sg = Buy"
    and "statusOf st (signal_id sg) \<noteq> T3" and "statusOf st (signal_id sg) \<noteq> SL"
    and "p \<noteq> 0" and "p \<le> stopLoss sg"
  shows "statusOf (tick sg (Some p) st) (signal_id sg) = SL"
  using assms by (simp add: tick_def trackSignal_def Let_def statusOf_def newStatus_def
      updateStats_def)

theorem stop_loss_dominates_witness:
  "action exampleSignal = Buy \<and>
   statusOf (exampleState\<lparr>signalStatus := [signal_id exampleSignal \<mapsto> T1]\<rparr>)
     (signal_id exampleSignal) = T1 \<and>
   (98::real) \<noteq> 0 \<and> 98 \<le> stopLoss exampleSignal \<and>
   statusOf (tick exampleSignal (Some 98)
     (exampleState\<lparr>signalStatus := [signal_id exampleSignal \<mapsto> T1]\<rparr>))
     (signal_id exampleSignal) = SL"
proof -
  let ?st = "exampleState\<lparr>signalStatus := [signal_id exampleSignal \<mapsto> T1]\<rparr>"
  have a: "action exampleSignal = Buy" by (simp add: exampleSignal_def)
  have s: "statusOf ?st (signal_id exampleSignal) = T1" by (simp add: statusOf_def)
  have p: "(98::real) \<noteq> 0" by simp
  have l: "(98::real) \<le> stopLoss exampleSignal" by (simp add: exampleSignal_def)
  from s have n3: "statusOf ?st (signal_id exampleSignal) \<noteq> T3"
    and nl: "statusOf ?st (signal_id exampleSignal) \<noteq> SL" by simp_all
  from stop_loss_dominates [OF a n3 nl p l] a s p l show ?thesis by simp
qed

text \<open>
  The claim as it was stated, for every current price, fails at the price zero: for the
  signal whose stop loss and targets are all \<open>0\<close>, the price \<open>0\<close> is at or below the
  stop loss and at or above the third target, and the signal stays active.
\<close>

theorem stop_loss_zero_price_counterexample:
  "action dustSignal = Buy \<and>
   statusOf (initialBotState\<lparr>signals := [dustSignal]\<rparr>) (signal_id dustSignal) = Active \<and>
   (0::real) \<le> stopLoss dustSignal \<and> (0::real) \<ge> takeProfits_t3 dustSignal \<and>
   statusOf (tick dustSignal (Some 0) (initialBotState\<lparr>signals := [dustSignal]\<rparr>))
     (signal_id dustSignal) = Active \<and>
   statusOf (checkPrices (Some [(''DUSTUSDT'', Some 0)]) (initialBotState\<lparr>signals := [dustSignal]\<rparr>))
     (signal_id dustSignal) = Active"
  by (simp add: tracker_defs dustSignal_def initialBotState_def)

subsection \<open>The counters\<close>

lemma statsInv_statsOf:
  "statsInv st \<Longrightarrow> 0 \<le> wins (statsOf st n) \<and> wins (statsOf st n) \<le> total (statsOf st n)"
  by (cases "traderStats st n") (simp_all add: statsInv_def statsOf_def)

lemma statsInv_updateStats:
  assumes "statsInv st"
  shows "statsInv (updateStats sg new st)"
proof (cases "new = T1 \<or> new = SL")
  case False
  with assms show ?thesis by (simp add: updateStats_def)
next
  case True
  have b: "0 \<le> wins (statsOf st (traderName sg)) \<and>
      wins (statsOf st (traderName sg)) \<le> total (statsOf st (traderName sg))"
    by (rule statsInv_statsOf [OF assms])
  have old: "traderStats st n = Some c \<Longrightarrow> 0 \<le> wins c \<and> wins c \<le> total c" for n c
    using assms by (simp add: statsInv_def)
  show ?thesis
    unfolding statsInv_def
  proof (intro allI impI)
    fix n c
    assume h: "traderStats (updateStats sg new st) n = Some c"
    show "0 \<le> wins c \<and> wins c \<le> total c"
    proof (cases "n = traderName sg")
      case True
      with h \<open>new = T1 \<or> new = SL\<close> have
        "c = \<lparr>wins = wins (statsOf st (traderName sg)) + (if new = T1 then 1 else 0),
              total = total (statsOf st (traderName sg)) + 1\<rparr>"
        by (auto simp add: updateStats_def Let_def)
      with b show ?thesis by simp
    next
      case False
      with h \<open>new = T1 \<or> new = SL\<close> have "traderStats st n = Some c"
        by (auto simp add: updateStats_def Let_def)
      then show ?thesis by (rule old)
    qed
  qed
qed

lemma statsInv_trackSignal: "statsInv st \<Longrightarrow> statsInv (trackSignal sg st)"
proof -
  assume inv: "statsInv st"
  have upd: "statsInv (st\<lparr>signalStatus := m\<rparr>)" for m
    using inv by (simp add: statsInv_def)
  show ?thesis
    by (simp add: trackSignal_def Let_def inv statsInv_updateStats [OF upd] split: option.splits)
qed

lemma statsInv_fold: "statsInv st \<Longrightarrow> statsInv (fold trackSignal sgs st)"
  by (induction sgs arbitrary: st) (simp_all add: statsInv_trackSignal)

lemma statsInv_checkPrices: "statsInv st \<Longrightarrow> statsInv (checkPrices r st)"
proof -
  assume inv: "statsInv st"
  have "statsInv (storePrices data st)" for data
    using inv by (simp add: statsInv_def storePrices_def)
  then show ?thesis
    by (simp add: checkPrices_def inv statsInv_fold split: option.splits)
qed

lemma statsInv_runTracker: "statsInv st \<Longrightarrow> statsInv (runTracker rs st)"
  unfolding runTracker_def
  by (induction rs arbitrary: st) (simp_all add: statsInv_checkPrices)

lemma statsInv_initial: "statsInv initialBotState"
  by (auto simp add: statsInv_def initialBotState_def seededStats_def split: if_splits)

lemma stats_step:
  "statsOf (trackSignal sg st) n = statsOf st n \<or>
   (total (statsOf (trackSignal sg st) n) = total (statsOf st n) + 1 \<and>
    (wins (statsOf (trackSignal sg st) n) = wins (statsOf st n) \<or>
     wins (statsOf (trackSignal sg st) n) = wins (statsOf st n) + 1))"
  by (simp add: trackSignal_def Let_def updateStats_def statsOf_def split: option.splits)

lemma traderStats_fetchLiveSignals: "traderStats (fetchLiveSignals response st) = traderStats st"
proof (cases response)
  case None
  then show ?thesis by (simp add: fetchLiveSignals_def)
next
  case (Some usdtPairs)
  then show ?thesis by (simp add: fetchLiveSignals_atomic traderStats_fold_addSignal)
qed

lemma statsInv_step:
  assumes "statsInv st"
  shows "statsInv (fst (step e (st, pending)))"
proof (cases e)
  case (Examine r c)
  with assms show ?thesis by simp
next
  case (Insert r)
  with assms show ?thesis by (simp add: statsInv_def traderStats_fold_addSignal)
next
  case (Track response)
  with assms show ?thesis by (simp add: statsInv_checkPrices)
qed

lemma statsInv_run: "statsInv st \<Longrightarrow> statsInv (fst (run events (st, pending)))"
proof (induction events arbitrary: st pending)
  case Nil
  then show ?case by (simp add: run_def)
next
  case (Cons e events)
  obtain st' pending' where s: "step e (st, pending) = (st', pending')"
    by (cases "step e (st, pending)")
  from statsInv_step [OF Cons.prems, of e pending] s have "statsInv st'" by simp
  then have "statsInv (fst (run events (st', pending')))" by (rule Cons.IH)
  with s show ?case by (simp add: run_def)
qed

text \<open>
  Claim C4. \<open>0 \<le> wins \<le> total\<close> holds for every entry of the seeded counters, and
  every step of the tracker, every run of \<^verbatim>\<open>checkPrices\<close> and every sequence of runs
  preserves it, as does the generator, which does not write the counters, and so does
  every interleaving of runs of the generator and the tracker; a step leaves the counters
  of a strategy as they are or adds 1 to \<open>total\<close> and at most 1 to \<open>wins\<close>.
\<close>

theorem wins_le_total:
  "statsInv initialBotState \<and>
   (statsInv st \<longrightarrow> statsInv (trackSignal sg st) \<and> statsInv (checkPrices r st) \<and>
      statsInv (runTracker rs st) \<and> statsInv (fetchLiveSignals response st) \<and>
      statsInv (fst (run events (st, pending)))) \<and>
   (statsOf (trackSignal sg st) n = statsOf st n \<or>
    (total (statsOf (trackSignal sg st) n) = total (statsOf st n) + 1 \<and>
     (wins (statsOf (trackSignal sg st) n) = wins (statsOf st n) \<or>
      wins (statsOf (trackSignal sg st) n) = wins (statsOf st n) + 1)))"
proof -
  have "statsInv st \<longrightarrow> statsInv (fetchLiveSignals response st)"
    by (simp add: statsInv_def traderStats_fetchLiveSignals)
  with statsInv_initial statsInv_trackSignal [of st sg] statsInv_checkPrices [of st r]
    statsInv_runTracker [of st rs] stats_step [of sg st n] statsInv_run [of st events pending]
  show ?thesis by blast
qed

theorem wins_le_total_witness:
  "statsInv exampleState \<and>
   statsInv (runTracker [Some [(''BTCUSDT'', Some 101.5)], Some [(''BTCUSDT'', Some 98)]] exampleState) \<and>
   statsInv (fst (run [Examine 1 btcCandidate, Insert 1, Track (Some [(''BTCUSDT'', Some 101.5)])]
     initialEngine)) \<and>
   statsOf exampleState ''RSI Oversold (1h)'' = \<lparr>wins = 0, total = 0\<rparr> \<and>
   statsOf (trackSignal exampleSignal (exampleState\<lparr>prices := [''BTCUSDT'' \<mapsto> 101.5]\<rparr>))
     ''RSI Oversold (1h)'' = \<lparr>wins = 1, total = 1\<rparr>"
proof -
  have i: "statsInv exampleState"
    by (auto simp add: statsInv_def example_defs split: if_splits)
  have j: "statsInv initialBotState"
    by (auto simp add: statsInv_def example_defs split: if_splits)
  have a: "statsOf exampleState ''RSI Oversold (1h)'' = \<lparr>wins = 0, total = 0\<rparr>"
    by (simp add: statsOf_def example_defs)
  have b: "statsOf (trackSignal exampleSignal (exampleState\<lparr>prices := [''BTCUSDT'' \<mapsto> 101.5]\<rparr>))
     ''RSI Oversold (1h)'' = \<lparr>wins = 1, total = 1\<rparr>"
    by (simp add: tracker_defs example_defs)
  from wins_le_total [where st = exampleState and sg = exampleSignal and r = None
      and rs = "[Some [(''BTCUSDT'', Some 101.5)], Some [(''BTCUSDT'', Some 98)]]"
      and response = None and events = "[]" and pending = "\<lambda>r. []"
      and n = "''RSI Oversold (1h)''"] i
  have c: "statsInv (runTracker [Some [(''BTCUSDT'', Some 101.5)], Some [(''BTCUSDT'', Some 98)]] exampleState)"
    by blast
  from wins_le_total [where st = initialBotState and sg = exampleSignal and r = None
      and rs = "[]" and response = None
      and events = "[Examine 1 btcCandidate, Insert 1, Track (Some [(''BTCUSDT'', Some 101.5)])]"
      and pending = "\<lambda>r. []" and n = "''RSI Oversold (1h)''"] j
  have d: "statsInv (fst (run [Examine 1 btcCandidate, Insert 1,
      Track (Some [(''BTCUSDT'', Some 101.5)])] initialEngine))"
    unfolding initialEngine_def by blast
  from i a b c d show ?thesis by simp
qed

text \<open>
  Claim C5. With \<open>old\<close> and \<open>new\<close> the status of a signal before and after one step
  of the tracker, and the counters read directly from \<^verbatim>\<open>botState.traderStats\<close>:
  a step that changes the status to \<open>T1\<close> replaces the entry \<open>c\<close> of the signal's
  strategy by \<open>wins c + 1\<close> and \<open>total c + 1\<close>, or writes one win out of one when
  the strategy has no entry; one that changes it to \<open>SL\<close> replaces the entry by
  \<open>wins c\<close> and \<open>total c + 1\<close>, or writes no win out of one; the entries of all
  other strategies stay as they are. A step that changes the status to \<open>T2\<close> or
  \<open>T3\<close> (from active as well) leaves all counters as they are, and so does a step
  that does not change the status.
\<close>

theorem stats_updated_on_t1_and_sl_only:
  fixes sg :: signal and st :: botState
  defines "old \<equiv> statusOf st (signal_id sg)"
    and "new \<equiv> statusOf (trackSignal sg st) (signal_id sg)"
  shows "(new \<noteq> old \<and> new = T1 \<longrightarrow>
            traderStats (trackSignal sg st) = (traderStats st)(traderName sg \<mapsto>
              (case traderStats st (traderName sg) of
                 None \<Rightarrow> \<lparr>wins = 1, total = 1\<rparr>
               | Some c \<Rightarrow> \<lparr>wins = wins c + 1, total = total c + 1\<rparr>))) \<and>
         (new \<noteq> old \<and> new = SL \<longrightarrow>
            traderStats (trackSignal sg st) = (traderStats st)(traderName sg \<mapsto>
              (case traderStats st (traderName sg) of
                 None \<Rightarrow> \<lparr>wins = 0, total = 1\<rparr>
               | Some c \<Rightarrow> \<lparr>wins = wins c, total = total c + 1\<rparr>))) \<and>
         (new \<noteq> old \<and> (new = T2 \<or> new = T3) \<longrightarrow>
            traderStats (trackSignal sg st) = traderStats st) \<and>
         (new = old \<longrightarrow> traderStats (trackSignal sg st) = traderStats st)"
proof (cases "prices st (pair_base sg @ pair_quote sg)")
  case None
  then show ?thesis
    unfolding old_def new_def by (simp add: trackSignal_def)
next
  case (Some p)
  show ?thesis
  proof (cases "p = 0 \<or> statusOf st (signal_id sg) = T3 \<or> statusOf st (signal_id sg) = SL
      \<or> newStatus sg p (statusOf st (signal_id sg)) = statusOf st (signal_id sg)")
    case True
    with Some have "trackSignal sg st = st" by (auto simp add: trackSignal_def Let_def)
    then show ?thesis unfolding old_def new_def by simp
  next
    case False
    with Some have eq: "trackSignal sg st = updateStats sg (newStatus sg p (statusOf st (signal_id sg)))
        (st\<lparr>signalStatus := (signalStatus st)(signal_id sg \<mapsto> newStatus sg p (statusOf st (signal_id sg)))\<rparr>)"
      by (simp add: trackSignal_def Let_def)
    have n: "statusOf (trackSignal sg st) (signal_id sg) = newStatus sg p (statusOf st (signal_id sg))"
      unfolding eq by (simp add: statusOf_def updateStats_def Let_def)
    have ts: "traderStats (trackSignal sg st) =
        (if newStatus sg p (statusOf st (signal_id sg)) = T1 \<or>
            newStatus sg p (statusOf st (signal_id sg)) = SL
         then (traderStats st)(traderName sg \<mapsto>
           (case traderStats st (traderName sg) of
              None \<Rightarrow>
                \<lparr>wins = (if newStatus sg p (statusOf st (signal_id sg)) = T1 then 1 else 0),
                 total = 1\<rparr>
            | Some c \<Rightarrow>
                \<lparr>wins = wins c + (if newStatus sg p (statusOf st (signal_id sg)) = T1 then 1 else 0),
                 total = total c + 1\<rparr>))
         else traderStats st)"
      unfolding eq by (simp add: updateStats_def Let_def statsOf_def split: option.splits)
    from False have ne: "newStatus sg p (statusOf st (signal_id sg)) \<noteq> statusOf st (signal_id sg)"
      by simp
    show ?thesis
      unfolding old_def new_def n ts using ne by (auto split: option.splits)
  qed
qed

theorem stats_updated_on_t1_and_sl_only_witness:
  "traderStats seasonedState ''RSI Oversold (1h)'' = Some \<lparr>wins = 3, total = 5\<rparr> \<and>
   statusOf seasonedState (signal_id exampleSignal) = Active \<and>
   statusOf (tick exampleSignal (Some 101.5) seasonedState) (signal_id exampleSignal) = T1 \<and>
   traderStats (tick exampleSignal (Some 101.5) seasonedState) =
     (traderStats seasonedState)(''RSI Oversold (1h)'' \<mapsto> \<lparr>wins = 4, total = 6\<rparr>) \<and>
   statusOf (tick exampleSignal (Some 98) seasonedState) (signal_id exampleSignal) = SL \<and>
   traderStats (tick exampleSignal (Some 98) seasonedState) =
     (traderStats seasonedState)(''RSI Oversold (1h)'' \<mapsto> \<lparr>wins = 3, total = 6\<rparr>) \<and>
   statusOf (tick exampleSignal (Some 102.5) seasonedState) (signal_id exampleSignal) = T2 \<and>
   traderStats (tick exampleSignal (Some 102.5) seasonedState) = traderStats seasonedState \<and>
   statusOf (tick exampleSignal (Some 104) seasonedState) (signal_id exampleSignal) = T3 \<and>
   traderStats (tick exampleSignal (Some 104) seasonedState) = traderStats seasonedState \<and>
   statusOf (tick exampleSignal (Some 100) seasonedState) (signal_id exampleSignal) = Active \<and>
   traderStats (tick exampleSignal (Some 100) seasonedState) = traderStats seasonedState \<and>
   traderStats seasonedState ''Momentum Surge (1h)'' = None \<and>
   statusOf (tick surgeSignal (Some 101.5) seasonedState) (signal_id surgeSignal) = T1 \<and>
   traderStats (tick surgeSignal (Some 101.5) seasonedState) =
     (traderStats seasonedState)(''Momentum Surge (1h)'' \<mapsto> \<lparr>wins = 1, total = 1\<rparr>) \<and>
   statusOf (tick surgeSignal (Some 98) seasonedState) (signal_id surgeSignal) = SL \<and>
   traderStats (tick surgeSignal (Some 98) seasonedState) =
     (traderStats seasonedState)(''Momentum Surge (1h)'' \<mapsto> \<lparr>wins = 0, total = 1\<rparr>)"
proof -
  let ?st = "\<lambda>p. seasonedState\<lparr>prices := (prices seasonedState)(''BTCUSDT'' := Some p)\<rparr>"
  let ?su = "\<lambda>p. seasonedState\<lparr>prices := (prices seasonedState)(''ETHUSDT'' := Some p)\<rparr>"
  have t: "tick exampleSignal (Some p) seasonedState = trackSignal exampleSignal (?st p)" for p
    by (simp add: tick_def exampleSignal_def)
  have u: "tick surgeSignal (Some p) seasonedState = trackSignal surgeSignal (?su p)" for p
    by (simp add: tick_def surgeSignal_def)
  have o: "statusOf (?st p) (signal_id exampleSignal) = Active" for p
    by (simp add: statusOf_def seasonedState_def example_defs)
  have o2: "statusOf (?su p) (signal_id surgeSignal) = Active" for p
    by (simp add: statusOf_def seasonedState_def example_defs)
  have c: "traderStats (?st p) (traderName exampleSignal) = Some \<lparr>wins = 3, total = 5\<rparr>" for p
    by (simp add: seasonedState_def exampleSignal_def)
  have c2: "traderStats (?su p) (traderName surgeSignal) = None" for p
    by (simp add: seasonedState_def surgeSignal_def example_defs)
  have ts: "traderStats (?st p) = traderStats seasonedState"
    "traderStats (?su p) = traderStats seasonedState" for p
    by simp_all
  have s1: "statusOf (trackSignal exampleSignal (?st 101.5)) (signal_id exampleSignal) = T1"
    by (simp add: tracker_defs seasonedState_def example_defs)
  have s2: "statusOf (trackSignal exampleSignal (?st 98)) (signal_id exampleSignal) = SL"
    by (simp add: tracker_defs seasonedState_def example_defs)
  have s3: "statusOf (trackSignal exampleSignal (?st 102.5)) (signal_id exampleSignal) = T2"
    by (simp add: tracker_defs seasonedState_def example_defs)
  have s4: "statusOf (trackSignal exampleSignal (?st 104)) (signal_id exampleSignal) = T3"
    by (simp add: tracker_defs seasonedState_def example_defs)
  have s5: "statusOf (trackSignal exampleSignal (?st 100)) (signal_id exampleSignal) = Active"
    by (simp add: tracker_defs seasonedState_def example_defs)
  have s6: "statusOf (trackSignal surgeSignal (?su 101.5)) (signal_id surgeSignal) = T1"
    by (simp add: tracker_defs seasonedState_def surgeSignal_def example_defs)
  have s7: "statusOf (trackSignal surgeSignal (?su 98)) (signal_id surgeSignal) = SL"
    by (simp add: tracker_defs seasonedState_def surgeSignal_def example_defs)
  have n: "traderName exampleSignal = ''RSI Oversold (1h)''"
    "traderName surgeSignal = ''Momentum Surge (1h)''"
    by (simp_all add: exampleSignal_def surgeSignal_def)
  have r1: "traderStats (trackSignal exampleSignal (?st 101.5)) =
      (traderStats seasonedState)(traderName exampleSignal \<mapsto> \<lparr>wins = 4, total = 6\<rparr>)"
    using stats_updated_on_t1_and_sl_only [of exampleSignal "?st 101.5"] s1 o [of "101.5"]
      c [of "101.5"]
    by simp
  have r2: "traderStats (trackSignal exampleSignal (?st 98)) =
      (traderStats seasonedState)(traderName exampleSignal \<mapsto> \<lparr>wins = 3, total = 6\<rparr>)"
    using stats_updated_on_t1_and_sl_only [of exampleSignal "?st 98"] s2 o [of 98] c [of 98]
    by simp
  have r3: "traderStats (trackSignal exampleSignal (?st 102.5)) = traderStats seasonedState"
    using stats_updated_on_t1_and_sl_only [of exampleSignal "?st 102.5"] s3 o [of "102.5"]
    by simp
  have r4: "traderStats (trackSignal exampleSignal (?st 104)) = traderStats seasonedState"
    using stats_updated_on_t1_and_sl_only [of exampleSignal "?st 104"] s4 o [of 104]
    by simp
  have r5: "traderStats (trackSignal exampleSignal (?st 100)) = traderStats seasonedState"
    using stats_updated_on_t1_and_sl_only [of exampleSignal "?st 100"] s5 o [of 100]
    by simp
  have r6: "traderStats (trackSignal surgeSignal (?su 101.5)) =
      (traderStats seasonedState)(traderName surgeSignal \<mapsto> \<lparr>wins = 1, total = 1\<rparr>)"
    using stats_updated_on_t1_and_sl_only [of surgeSignal "?su 101.5"] s6 o2 [of "101.5"]
      c2 [of "101.5"]
    by simp
  have r7: "traderStats (trackSignal surgeSignal (?su 98)) =
      (traderStats seasonedState)(traderName surgeSignal \<mapsto> \<lparr>wins = 0, total = 1\<rparr>)"
    using stats_updated_on_t1_and_sl_only [of surgeSignal "?su 98"] s7 o2 [of 98] c2 [of 98]
    by simp
  have o': "statusOf seasonedState (signal_id exampleSignal) = Active"
    by (simp add: statusOf_def seasonedState_def example_defs)
  have c': "traderStats seasonedState ''RSI Oversold (1h)'' = Some \<lparr>wins = 3, total = 5\<rparr>"
    "traderStats seasonedState ''Momentum Surge (1h)'' = None"
    by (simp_all add: seasonedState_def example_defs)
  show ?thesis
    unfolding t u r1 r2 r3 r4 r5 r6 r7 s1 s2 s3 s4 s5 s6 s7 o' n c' by simp
qed

subsection \<open>The scenario of section 8\<close>

text \<open>
  Claim C7, as the source has it. A buy signal with stop loss 98.5 and targets 101.2, 102
  and 103.5 that is active, tracked at the prices 100, 101.5 and 102.5. The first price
  changes neither the status nor any counter. The second reaches the first target: the
  signal moves to \<open>T1\<close>, and that step replaces the entry \<open>c\<close> of the signal's
  strategy in \<^verbatim>\<open>botState.traderStats\<close> by \<open>wins c + 1\<close> and \<open>total c + 1\<close>
  (one win out of one when there was no entry) and leaves all other entries. The third
  moves the signal to \<open>T2\<close>, the final status, and changes no counter.
\<close>

theorem scenario_passes_t1:
  fixes sg :: signal and st :: botState
  defines "first \<equiv> tick sg (Some 100) st"
  defines "second \<equiv> tick sg (Some 101.5) first"
  defines "third \<equiv> tick sg (Some 102.5) second"
  assumes "action sg = Buy" and "stopLoss sg = 98.5" and "takeProfits_t1 sg = 101.2"
    and "takeProfits_t2 sg = 102" and "takeProfits_t3 sg = 103.5"
    and "statusOf st (signal_id sg) = Active"
  shows "statusOf first (signal_id sg) = Active \<and>
         traderStats first = traderStats st \<and>
         statusOf second (signal_id sg) = T1 \<and>
         traderStats second = (traderStats st)(traderName sg \<mapsto>
           (case traderStats st (traderName sg) of
              None \<Rightarrow> \<lparr>wins = 1, total = 1\<rparr>
            | Some c \<Rightarrow> \<lparr>wins = wins c + 1, total = total c + 1\<rparr>)) \<and>
         statusOf third (signal_id sg) = T2 \<and>
         traderStats third = traderStats second"
  using assms(4-)
  unfolding first_def second_def third_def
  by (simp add: tick_def trackSignal_def Let_def statusOf_def newStatus_def updateStats_def
      statsOf_def split: option.splits)

theorem scenario_passes_t1_witness:
  "action exampleSignal = Buy \<and> stopLoss exampleSignal = 98.5 \<and>
   takeProfits_t1 exampleSignal = 101.2 \<and> takeProfits_t2 exampleSignal = 102 \<and>
   takeProfits_t3 exampleSignal = 103.5 \<and>
   statusOf seasonedState (signal_id exampleSignal) = Active \<and>
   traderStats seasonedState (traderName exampleSignal) = Some \<lparr>wins = 3, total = 5\<rparr> \<and>
   statusOf (tick exampleSignal (Some 100) seasonedState) (signal_id exampleSignal) = Active \<and>
   traderStats (tick exampleSignal (Some 100) seasonedState) = traderStats seasonedState \<and>
   statusOf (tick exampleSignal (Some 101.5) (tick exampleSignal (Some 100) seasonedState))
     (signal_id exampleSignal) = T1 \<and>
   traderStats (tick exampleSignal (Some 101.5) (tick exampleSignal (Some 100) seasonedState)) =
     (traderStats seasonedState)(traderName exampleSignal \<mapsto> \<lparr>wins = 4, total = 6\<rparr>) \<and>
   statusOf (tick exampleSignal (Some 102.5) (tick exampleSignal (Some 101.5)
      (tick exampleSignal (Some 100) seasonedState))) (signal_id exampleSignal) = T2 \<and>
   traderStats (tick exampleSignal (Some 102.5) (tick exampleSignal (Some 101.5)
      (tick exampleSignal (Some 100) seasonedState))) =
     (traderStats seasonedState)(traderName exampleSignal \<mapsto> \<lparr>wins = 4, total = 6\<rparr>)"
proof -
  have h: "action exampleSignal = Buy" "stopLoss exampleSignal = 98.5"
    "takeProfits_t1 exampleSignal = 101.2" "takeProfits_t2 exampleSignal = 102"
    "takeProfits_t3 exampleSignal = 103.5"
    "statusOf seasonedState (signal_id exampleSignal) = Active"
    by (simp_all add: statusOf_def seasonedState_def example_defs)
  have c: "traderStats seasonedState (traderName exampleSignal) = Some \<lparr>wins = 3, total = 5\<rparr>"
    by (simp add: seasonedState_def exampleSignal_def)
  from scenario_passes_t1 [OF h] h c show ?thesis by simp
qed

text \<open>
  The claim as it was stated has no stats increment over the run. Three runs of
  \<^verbatim>\<open>checkPrices\<close> on the scenario, from the seeded counters: the signal is active
  with no win out of none after the first, at \<open>T1\<close> with one win out of one after the
  second, and at \<open>T2\<close> with one win out of one after the third.
\<close>

theorem scenario_counterexample:
  "statusOf exampleState (signal_id exampleSignal) = Active \<and>
   traderStats exampleState (traderName exampleSignal) = Some \<lparr>wins = 0, total = 0\<rparr> \<and>
   statusOf (runTracker [Some [(''BTCUSDT'', Some 100)]] exampleState)
     (signal_id exampleSignal) = Active \<and>
   traderStats (runTracker [Some [(''BTCUSDT'', Some 100)]] exampleState)
     (traderName exampleSignal) = Some \<lparr>wins = 0, total = 0\<rparr> \<and>
   statusOf (runTracker [Some [(''BTCUSDT'', Some 100)], Some [(''BTCUSDT'', Some 101.5)]]
     exampleState) (signal_id exampleSignal) = T1 \<and>
   traderStats (runTracker [Some [(''BTCUSDT'', Some 100)], Some [(''BTCUSDT'', Some 101.5)]]
     exampleState) (traderName exampleSignal) = Some \<lparr>wins = 1, total = 1\<rparr> \<and>
   statusOf (runTracker [Some [(''BTCUSDT'', Some 100)], Some [(''BTCUSDT'', Some 101.5)],
       Some [(''BTCUSDT'', Some 102.5)]] exampleState) (signal_id exampleSignal) = T2 \<and>
   traderStats (runTracker [Some [(''BTCUSDT'', Some 100)], Some [(''BTCUSDT'', Some 101.5)],
       Some [(''BTCUSDT'', Some 102.5)]] exampleState) (traderName exampleSignal) =
     Some \<lparr>wins = 1, total = 1\<rparr>"
  by (simp add: tracker_defs example_defs)

subsection \<open>Tracking twice at the same price\<close>

text \<open>
  The tracker changes neither the history nor the prices it walks with; a signal is
  settled after its own step, stays settled under the steps of other signals (statuses
  only advance), and a walk over settled signals changes nothing. Storing the same prices
  again changes nothing either.
\<close>

lemma signals_trackSignal: "signals (trackSignal sg st) = signals st"
  by (simp add: trackSignal_def Let_def updateStats_def split: option.splits)

lemma signals_fold_trackSignal: "signals (fold trackSignal sgs st) = signals st"
  by (induction sgs arbitrary: st) (simp_all add: signals_trackSignal)


lemma settled_fixed: "settled sg st \<Longrightarrow> trackSignal sg st = st"
  by (auto simp add: settled_def trackSignal_def Let_def split: option.splits)

lemma prices_trackSignal: "prices (trackSignal sg st) = prices st"
  by (simp add: trackSignal_def Let_def updateStats_def split: option.splits)

lemma newStatus_settled: "newStatus sg p (newStatus sg p s) = newStatus sg p s"
  by (cases s) (simp_all add: newStatus_def)

lemma newStatus_upward:
  assumes "newStatus sg p s = s" and "advances s s'" and "s' \<noteq> T3" and "s' \<noteq> SL"
  shows "newStatus sg p s' = s'"
  using assms by (cases s; cases s') (simp_all add: newStatus_def advances_def split: if_splits)

lemma settled_after_own_step: "settled sg (trackSignal sg st)"
proof (cases "prices st (pair_base sg @ pair_quote sg)")
  case None
  then show ?thesis by (simp add: settled_def trackSignal_def)
next
  case (Some p)
  show ?thesis
  proof (cases "p = 0 \<or> statusOf st (signal_id sg) = T3 \<or> statusOf st (signal_id sg) = SL
      \<or> newStatus sg p (statusOf st (signal_id sg)) = statusOf st (signal_id sg)")
    case True
    with Some have "trackSignal sg st = st" by (auto simp add: trackSignal_def Let_def)
    with Some True show ?thesis by (auto simp add: settled_def)
  next
    case False
    with Some have eq: "trackSignal sg st = updateStats sg (newStatus sg p (statusOf st (signal_id sg)))
        (st\<lparr>signalStatus := (signalStatus st)(signal_id sg \<mapsto> newStatus sg p (statusOf st (signal_id sg)))\<rparr>)"
      by (simp add: trackSignal_def Let_def)
    have n: "statusOf (trackSignal sg st) (signal_id sg) = newStatus sg p (statusOf st (signal_id sg))"
      unfolding eq by (simp add: statusOf_def updateStats_def Let_def)
    show ?thesis
      unfolding settled_def prices_trackSignal n using Some by (simp add: newStatus_settled)
  qed
qed

lemma settled_preserved:
  assumes "settled sg st"
  shows "settled sg (trackSignal sg' st)"
proof (cases "prices st (pair_base sg @ pair_quote sg)")
  case None
  then show ?thesis by (simp add: settled_def prices_trackSignal)
next
  case (Some p)
  have adv: "advances (statusOf st (signal_id sg)) (statusOf (trackSignal sg' st) (signal_id sg))"
    by (rule trackSignal_advances)
  show ?thesis
  proof (cases "p = 0")
    case True
    with Some show ?thesis by (simp add: settled_def prices_trackSignal)
  next
    case False
    show ?thesis
    proof (cases "statusOf (trackSignal sg' st) (signal_id sg) = T3 \<or>
        statusOf (trackSignal sg' st) (signal_id sg) = SL")
      case True
      with Some show ?thesis by (auto simp add: settled_def prices_trackSignal)
    next
      case open': False
      with adv have open0: "statusOf st (signal_id sg) \<noteq> T3 \<and> statusOf st (signal_id sg) \<noteq> SL"
        by (auto simp add: advances_def)
      with assms Some False have "newStatus sg p (statusOf st (signal_id sg)) = statusOf st (signal_id sg)"
        by (simp add: settled_def)
      from newStatus_upward [OF this adv] open' Some show ?thesis
        by (simp add: settled_def prices_trackSignal)
    qed
  qed
qed

lemma settled_fold: "settled sg st \<Longrightarrow> settled sg (fold trackSignal sgs st)"
  by (induction sgs arbitrary: st) (simp_all add: settled_preserved)

lemma all_settled_after_fold: "\<forall>sg \<in> set sgs. settled sg (fold trackSignal sgs st)"
proof (induction sgs arbitrary: st)
  case Nil
  show ?case by simp
next
  case (Cons sg sgs)
  have "settled sg (fold trackSignal sgs (trackSignal sg st))"
    by (rule settled_fold [OF settled_after_own_step])
  with Cons.IH [of "trackSignal sg st"] show ?case by simp
qed

lemma fold_settled: "\<forall>sg \<in> set sgs. settled sg st \<Longrightarrow> fold trackSignal sgs st = st"
  by (induction sgs) (simp_all add: settled_fixed)

lemma prices_fold_trackSignal: "prices (fold trackSignal sgs st) = prices st"
  by (induction sgs arbitrary: st) (simp_all add: prices_trackSignal)

lemma store_other:
  "k \<notin> fst ` set data \<Longrightarrow>
    fold (\<lambda>(symbol, price) m. m(symbol := price)) data m k = m k"
  by (induction data arbitrary: m) (auto simp add: case_prod_beta)

lemma store_same:
  "k \<in> fst ` set data \<Longrightarrow>
    fold (\<lambda>(symbol, price) m. m(symbol := price)) data m k =
    fold (\<lambda>(symbol, price) m. m(symbol := price)) data m' k"
proof (induction data arbitrary: m m')
  case Nil
  then show ?case by simp
next
  case (Cons d data)
  show ?case
  proof (cases "k \<in> fst ` set data")
    case True
    show ?thesis
      unfolding fold_simps by (rule Cons.IH [OF True])
  next
    case False
    with Cons.prems have "k = fst d" by simp
    with False show ?thesis
      unfolding fold_simps by (simp add: store_other case_prod_beta)
  qed
qed

lemma storePrices_twice:
  assumes "prices st' = prices (storePrices data st)"
  shows "storePrices data st' = st'"
proof -
  let ?g = "fold (\<lambda>(symbol, price) m. m(symbol := price)) data"
  have "?g (?g (prices st)) k = ?g (prices st) k" for k
  proof (cases "k \<in> fst ` set data")
    case True
    then show ?thesis by (rule store_same)
  next
    case False
    then show ?thesis by (rule store_other)
  qed
  then have "?g (?g (prices st)) = ?g (prices st)" by (rule ext)
  with assms show ?thesis by (simp add: storePrices_def)
qed

lemma isLive_trackSignal: "isLive (trackSignal sg st) = isLive st"
  by (simp add: trackSignal_def Let_def updateStats_def split: option.splits)

lemma isLive_fold_trackSignal: "isLive (fold trackSignal sgs st) = isLive st"
  by (induction sgs arbitrary: st) (simp_all add: isLive_trackSignal)

lemma checkPrices_twice: "checkPrices r (checkPrices r st) = checkPrices r st"
proof (cases "\<not> isLive st \<or> signals st = [] \<or> r = None")
  case True
  then show ?thesis by (auto simp add: checkPrices_def)
next
  case False
  then obtain data where r: "r = Some data" by auto
  define st' where "st' = fold trackSignal (signals st) (storePrices data st)"
  from False r have c: "checkPrices r st = st'"
    by (simp add: checkPrices_def st'_def)
  have sg: "signals st' = signals st"
    by (simp add: st'_def signals_fold_trackSignal storePrices_def)
  have lv: "isLive st' = isLive st"
    by (simp add: st'_def isLive_fold_trackSignal storePrices_def)
  have "prices st' = prices (storePrices data st)"
    by (simp add: st'_def prices_fold_trackSignal)
  then have sp: "storePrices data st' = st'" by (rule storePrices_twice)
  have "\<forall>s \<in> set (signals st). settled s st'"
    unfolding st'_def sg
  proof -
    have "signals (storePrices data st) = signals st" by (simp add: storePrices_def)
    with all_settled_after_fold [of "signals (storePrices data st)" "storePrices data st"]
    show "\<forall>s \<in> set (signals st). settled s (fold trackSignal (signals st) (storePrices data st))"
      by simp
  qed
  then have "fold trackSignal (signals st) st' = st'" by (rule fold_settled)
  with False r show ?thesis
    unfolding c by (simp add: checkPrices_def sg lv sp)
qed

text \<open>
  Claim C8. The lifecycle check is idempotent. The step of the tracker for one signal,
  applied again to its own result with the prices unchanged, returns that result, so
  neither the status nor any counter changes a second time; the same holds for the step
  that first stores the price just read, and for a whole run of \<^verbatim>\<open>checkPrices\<close>
  repeated with the same response.
\<close>

theorem tracker_idempotent:
  "trackSignal sg (trackSignal sg st) = trackSignal sg st \<and>
   tick sg price (tick sg price st) = tick sg price st \<and>
   checkPrices r (checkPrices r st) = checkPrices r st"
proof -
  have t: "trackSignal sg (trackSignal sg st') = trackSignal sg st'" for st'
    by (rule settled_fixed [OF settled_after_own_step])
  have "tick sg price (tick sg price st) = tick sg price st"
  proof -
    let ?k = "pair_base sg @ pair_quote sg"
    let ?st1 = "st\<lparr>prices := (prices st)(?k := price)\<rparr>"
    have "(trackSignal sg ?st1)\<lparr>prices := (prices (trackSignal sg ?st1))(?k := price)\<rparr>
        = trackSignal sg ?st1"
      by (simp add: prices_trackSignal)
    then show ?thesis
      unfolding tick_def using t [of ?st1] by simp
  qed
  with t [of st] checkPrices_twice [of r st] show ?thesis by simp
qed

theorem tracker_idempotent_witness:
  "isLive exampleState \<and> signals exampleState \<noteq> [] \<and>
   statusOf (checkPrices (Some [(''BTCUSDT'', Some 101.5)]) exampleState)
     (signal_id exampleSignal) = T1 \<and>
   statsOf (checkPrices (Some [(''BTCUSDT'', Some 101.5)]) exampleState)
     (traderName exampleSignal) = \<lparr>wins = 1, total = 1\<rparr> \<and>
   statusOf (checkPrices (Some [(''BTCUSDT'', Some 101.5)])
     (checkPrices (Some [(''BTCUSDT'', Some 101.5)]) exampleState))
     (signal_id exampleSignal) = T1 \<and>
   statsOf (checkPrices (Some [(''BTCUSDT'', Some 101.5)])
     (checkPrices (Some [(''BTCUSDT'', Some 101.5)]) exampleState))
     (traderName exampleSignal) = \<lparr>wins = 1, total = 1\<rparr>"
proof -
  let ?r = "Some [(''BTCUSDT'', Some (101.5 :: real))]"
  have l: "isLive exampleState \<and> signals exampleState \<noteq> []"
    by (simp add: example_defs)
  have s: "statusOf (checkPrices ?r exampleState) (signal_id exampleSignal) = T1"
    by (simp add: tracker_defs example_defs)
  have c: "statsOf (checkPrices ?r exampleState) (traderName exampleSignal) =
      \<lparr>wins = 1, total = 1\<rparr>"
    by (simp add: tracker_defs example_defs)
  from tracker_idempotent [of exampleSignal exampleState "Some 101.5" ?r]
  have "checkPrices ?r (checkPrices ?r exampleState) = checkPrices ?r exampleState"
    by simp
  with l s c show ?thesis by simp
qed

subsection \<open>A win and a loss from one signal\<close>

text \<open>
  Claim C10. An active buy signal tracked at a price \<open>p1\<close> that reaches the first target
  only (above the stop loss, below the second and third target) and later at a price
  \<open>p2\<close> at or below the stop loss, both prices other than zero: the first step moves it to
  \<open>T1\<close> and adds 1 to \<open>wins\<close> and \<open>total\<close> of its strategy, the second moves it to
  \<open>SL\<close> and adds 1 to \<open>total\<close> again. The strategy ends with \<open>wins + 1\<close> and
  \<open>total + 2\<close>: the loss does not undo the win.
\<close>

theorem win_then_loss:
  assumes "action sg = Buy" and "statusOf st (signal_id sg) = Active"
    and "p1 \<noteq> 0" and "stopLoss sg < p1" and "p1 < takeProfits_t3 sg"
    and "p1 < takeProfits_t2 sg" and "takeProfits_t1 sg \<le> p1"
    and "p2 \<noteq> 0" and "p2 \<le> stopLoss sg"
  shows "statusOf (tick sg (Some p1) st) (signal_id sg) = T1 \<and>
         statsOf (tick sg (Some p1) st) (traderName sg) =
           \<lparr>wins = wins (statsOf st (traderName sg)) + 1,
            total = total (statsOf st (traderName sg)) + 1\<rparr> \<and>
         statusOf (tick sg (Some p2) (tick sg (Some p1) st)) (signal_id sg) = SL \<and>
         statsOf (tick sg (Some p2) (tick sg (Some p1) st)) (traderName sg) =
           \<lparr>wins = wins (statsOf st (traderName sg)) + 1,
            total = total (statsOf st (traderName sg)) + 2\<rparr>"
  using assms
  by (simp add: tick_def trackSignal_def Let_def statusOf_def newStatus_def updateStats_def
      statsOf_def)

theorem win_then_loss_witness:
  "action exampleSignal = Buy \<and> statusOf exampleState (signal_id exampleSignal) = Active \<and>
   (101.3::real) \<noteq> 0 \<and> stopLoss exampleSignal < 101.3 \<and> 101.3 < takeProfits_t3 exampleSignal \<and>
   101.3 < takeProfits_t2 exampleSignal \<and> takeProfits_t1 exampleSignal \<le> 101.3 \<and>
   (98::real) \<noteq> 0 \<and> 98 \<le> stopLoss exampleSignal \<and>
   statusOf (tick exampleSignal (Some 98) (tick exampleSignal (Some 101.3) exampleState))
     (signal_id exampleSignal) = SL \<and>
   statsOf (tick exampleSignal (Some 98) (tick exampleSignal (Some 101.3) exampleState))
     (traderName exampleSignal) = \<lparr>wins = 1, total = 2\<rparr>"
proof -
  have h: "action exampleSignal = Buy" "statusOf exampleState (signal_id exampleSignal) = Active"
    "(101.3::real) \<noteq> 0" "stopLoss exampleSignal < 101.3" "101.3 < takeProfits_t3 exampleSignal"
    "101.3 < takeProfits_t2 exampleSignal" "takeProfits_t1 exampleSignal \<le> 101.3"
    "(98::real) \<noteq> 0" "98 \<le> stopLoss exampleSignal"
    by (simp_all add: statusOf_def example_defs)
  have c: "statsOf exampleState (traderName exampleSignal) = \<lparr>wins = 0, total = 0\<rparr>"
    by (simp add: statsOf_def example_defs)
  from win_then_loss [OF h] h c show ?thesis by simp
qed

section \<open>Properties of the indicator\<close>

declare seedLoop.simps [simp del] smoothLoop.simps [simp del]

text \<open>
  The first loop adds up gains and losses of the deltas with index \<open>i\<close> to \<open>period\<close>; the
  second folds Wilder's step over the deltas from index \<open>i\<close> on.
\<close>

lemma seedLoop_sums:
  "seedLoop closes period i (gains, losses) =
    (gains + sum_list (map (\<lambda>k. gainOf (closes ! k - closes ! (k - 1))) [i..<Suc period]),
     losses + sum_list (map (\<lambda>k. lossOf (closes ! k - closes ! (k - 1))) [i..<Suc period]))"
proof (induction closes period i "(gains, losses)" arbitrary: gains losses rule: seedLoop.induct)
  case (1 closes period i gains losses)
  show ?case
  proof (cases "i \<le> period")
    case False
    then show ?thesis by (simp add: seedLoop.simps)
  next
    case True
    then have u: "[i..<Suc period] = i # [Suc i..<Suc period]"
      by (simp add: upt_conv_Cons)
    show ?thesis
    proof (cases "closes ! i - closes ! (i - 1) > 0")
      case pos: True
      from "1.hyps"(1) [OF True refl pos] True pos show ?thesis
        by (subst seedLoop.simps) (simp add: u gainOf_def lossOf_def Let_def del: upt_Suc)
    next
      case neg: False
      from "1.hyps"(2) [OF True refl neg] True neg show ?thesis
        by (subst seedLoop.simps) (simp add: u gainOf_def lossOf_def Let_def del: upt_Suc)
    qed
  qed
qed

lemma smoothLoop_foldl:
  "smoothLoop closes 14 i (avgGain, avgLoss) =
    foldl wilderStep (avgGain, avgLoss)
      (map (\<lambda>k. closes ! k - closes ! (k - 1)) [i..<length closes])"
proof (induction closes "14::nat" i "(avgGain, avgLoss)" arbitrary: avgGain avgLoss
    rule: smoothLoop.induct)
  case (1 closes i avgGain avgLoss)
  show ?case
  proof (cases "i < length closes")
    case False
    then show ?thesis by (simp add: smoothLoop.simps)
  next
    case True
    then have u: "[i..<length closes] = i # [Suc i..<length closes]"
      by (simp add: upt_conv_Cons)
    from "1.hyps" [OF True refl refl refl] True show ?thesis
      by (subst smoothLoop.simps)
        (simp add: u wilderStep_def gainOf_def lossOf_def Let_def split del: if_split cong: if_cong)
  qed
qed

lemma take_deltas:
  "14 < length closes \<Longrightarrow>
    take 14 (deltas closes) = map (\<lambda>k. closes ! k - closes ! (k - 1)) [1..<15]"
  by (simp add: deltas_def take_map take_upt)

lemma drop_deltas:
  "drop 14 (deltas closes) = map (\<lambda>k. closes ! k - closes ! (k - 1)) [15..<length closes]"
  by (simp add: deltas_def drop_map drop_upt)

lemma sum_positive: "sum_list (filter (\<lambda>d. d > 0) ds) = sum_list (map gainOf ds)" for ds :: "real list"
  by (induction ds) (simp_all add: gainOf_def)

lemma sum_negative:
  "sum_list (map uminus (filter (\<lambda>d. d < 0) ds)) = sum_list (map lossOf ds)" for ds :: "real list"
  by (induction ds) (simp_all add: lossOf_def)

lemma calculateRSI_specRSI: "calculateRSI closes 14 = specRSI closes"
proof (cases "length closes \<le> 14")
  case True
  then show ?thesis by (simp add: calculateRSI_def specRSI_def)
next
  case False
  then have len: "14 < length closes" by simp
  have seed: "seedLoop closes 14 1 (0, 0) = (seedAvgGain closes * 14, seedAvgLoss closes * 14)"
    by (simp add: seedLoop_sums seedAvgGain_def seedAvgLoss_def take_deltas [OF len]
        sum_positive sum_negative comp_def)
  have sm: "smoothLoop closes 14 (14 + 1)
      (seedAvgGain closes * 14 / real 14, seedAvgLoss closes * 14 / real 14) =
      foldl wilderStep (seedAvgGain closes, seedAvgLoss closes) (drop 14 (deltas closes))"
    by (simp add: smoothLoop_foldl drop_deltas)
  show ?thesis
    unfolding calculateRSI_def specRSI_def seed prod.case sm
    using False by (simp add: Let_def case_prod_beta)
qed

lemma foldl_no_loss:
  "\<forall>d \<in> set ds. d > 0 \<Longrightarrow> snd (foldl wilderStep (g, 0) ds) = 0"
  by (induction ds arbitrary: g) (simp_all add: wilderStep_def lossOf_def)

lemma increasing_deltas:
  assumes "sorted_wrt (<) closes"
  shows "\<forall>d \<in> set (deltas closes). d > 0"
proof
  fix d assume "d \<in> set (deltas closes)"
  then obtain k where k: "1 \<le> k" "k < length closes" and d: "d = closes ! k - closes ! (k - 1)"
    by (auto simp add: deltas_def)
  from k have "k - 1 < k" by simp
  with assms k have "closes ! (k - 1) < closes ! k"
    by (simp add: sorted_wrt_iff_nth_less)
  with d show "d > 0" by simp
qed

lemma specRSI_increasing:
  assumes "14 < length closes" and "sorted_wrt (<) closes"
  shows "specRSI closes = 100"
proof -
  have pos: "\<forall>d \<in> set (deltas closes). d > 0"
    by (rule increasing_deltas [OF assms(2)])
  have "filter (\<lambda>d. d < 0) (take 14 (deltas closes)) = []"
    using pos by (auto simp add: filter_empty_conv dest!: in_set_takeD) 
  then have l0: "seedAvgLoss closes = 0"
    by (simp add: seedAvgLoss_def)
  have "\<forall>d \<in> set (drop 14 (deltas closes)). d > 0"
    using pos by (auto dest: in_set_dropD)
  then have "snd (foldl wilderStep (seedAvgGain closes, 0) (drop 14 (deltas closes))) = 0"
    by (rule foldl_no_loss)
  with assms(1) show ?thesis
    by (simp add: specRSI_def l0 Let_def)
qed

lemma calculateRSI_mixedCloses: "calculateRSI mixedCloses 14 = 1970 / 21"
  by (simp add: mixedCloses_def calculateRSI_def seedLoop.simps smoothLoop.simps Let_def)

text \<open>
  Claim C6. With period 14, \<^verbatim>\<open>calculateRSI\<close> is the computation of the specification:
  it returns 50 for every series of at most 14 closes; for a longer series the first loop
  leaves the sums whose fourteenth parts are the seed averages (the sum of the positive
  deltas, and of the negated negative deltas, among the first 14 deltas), the second loop
  applies \<open>avgGain = (avgGain * 13 + gain) / 14\<close> and
  \<open>avgLoss = (avgLoss * 13 + loss) / 14\<close> for each later delta, and the result is 100
  when the final average loss is 0 and \<open>100 - 100 / (1 + avgGain / avgLoss)\<close> otherwise;
  a strictly increasing series of more than 14 closes gives 100. Gain and loss of one delta
  exclude each other: a delta that is not positive has gain 0, one that is not negative has
  loss 0.
\<close>

theorem rsi_wilder:
  "calculateRSI closes 14 = specRSI closes \<and>
   (length closes \<le> 14 \<longrightarrow> calculateRSI closes 14 = 50) \<and>
   (14 < length closes \<longrightarrow>
      seedLoop closes 14 1 (0, 0) = (14 * seedAvgGain closes, 14 * seedAvgLoss closes) \<and>
      smoothLoop closes 14 15 avg = foldl wilderStep avg (drop 14 (deltas closes))) \<and>
   (14 < length closes \<and> sorted_wrt (<) closes \<longrightarrow> calculateRSI closes 14 = 100) \<and>
   (gainOf d = 0 \<or> lossOf d = 0) \<and> (d \<le> 0 \<longrightarrow> gainOf d = 0) \<and> (0 \<le> d \<longrightarrow> lossOf d = 0)"
proof -
  have a: "calculateRSI closes 14 = specRSI closes"
    by (rule calculateRSI_specRSI)
  have b: "length closes \<le> 14 \<longrightarrow> calculateRSI closes 14 = 50"
    by (simp add: calculateRSI_def)
  have c: "14 < length closes \<longrightarrow>
      seedLoop closes 14 1 (0, 0) = (14 * seedAvgGain closes, 14 * seedAvgLoss closes) \<and>
      smoothLoop closes 14 15 avg = foldl wilderStep avg (drop 14 (deltas closes))"
  proof
    assume len: "14 < length closes"
    have "seedLoop closes 14 1 (0, 0) = (14 * seedAvgGain closes, 14 * seedAvgLoss closes)"
      by (simp add: seedLoop_sums seedAvgGain_def seedAvgLoss_def take_deltas [OF len]
          sum_positive sum_negative comp_def)
    moreover have "smoothLoop closes 14 15 avg = foldl wilderStep avg (drop 14 (deltas closes))"
      by (cases avg) (simp add: smoothLoop_foldl drop_deltas)
    ultimately show "seedLoop closes 14 1 (0, 0) = (14 * seedAvgGain closes, 14 * seedAvgLoss closes) \<and>
      smoothLoop closes 14 15 avg = foldl wilderStep avg (drop 14 (deltas closes))"
      by simp
  qed
  have d: "14 < length closes \<and> sorted_wrt (<) closes \<longrightarrow> calculateRSI closes 14 = 100"
    using specRSI_increasing [of closes] by (simp add: a)
  have e: "(gainOf d = 0 \<or> lossOf d = 0) \<and> (d \<le> 0 \<longrightarrow> gainOf d = 0) \<and> (0 \<le> d \<longrightarrow> lossOf d = 0)"
    by (simp add: gainOf_def lossOf_def)
  from a b c d e show ?thesis by blast
qed

theorem rsi_wilder_witness:
  "length (take 14 mixedCloses) \<le> 14 \<and> calculateRSI (take 14 mixedCloses) 14 = 50 \<and>
   14 < length mixedCloses \<and>
   seedLoop mixedCloses 14 1 (0, 0) = (14, 0) \<and>
   smoothLoop mixedCloses 14 15 (1, 0) = (197 / 196, 13 / 196) \<and>
   calculateRSI mixedCloses 14 = 1970 / 21 \<and>
   14 < length risingCloses \<and> sorted_wrt (<) risingCloses \<and>
   calculateRSI risingCloses 14 = 100 \<and>
   (- 1::real) \<le> 0 \<and> gainOf (- 1) = 0 \<and> (0::real) \<le> 2 \<and> lossOf 2 = 0"
proof -
  have l1: "length (take 14 mixedCloses) \<le> 14" by simp
  have l2: "14 < length mixedCloses" by (simp add: mixedCloses_def)
  have l3: "14 < length risingCloses \<and> sorted_wrt (<) risingCloses"
    by (simp add: risingCloses_def)
  have sg: "seedAvgGain mixedCloses = 1" and sl: "seedAvgLoss mixedCloses = 0"
    by (simp_all add: mixedCloses_def seedAvgGain_def seedAvgLoss_def deltas_def upt_rec)
  have dr: "drop 14 (deltas mixedCloses) = [- 1, 2]"
    by (simp add: mixedCloses_def deltas_def upt_rec)
  have sp: "specRSI mixedCloses = 1970 / 21"
    using l2 by (simp add: specRSI_def sg sl dr wilderStep_def gainOf_def lossOf_def)
  have w1: "foldl wilderStep (1, 0) [- 1, 2] = (197 / 196, 13 / 196)"
    by (simp add: wilderStep_def gainOf_def lossOf_def)
  note t1 = rsi_wilder [of "take 14 mixedCloses" "(1, 0)" "- 1"]
  note t2 = rsi_wilder [of mixedCloses "(1, 0)" 2]
  note t3 = rsi_wilder [of risingCloses "(1, 0)" 2]
  from t1 l1 have r1: "calculateRSI (take 14 mixedCloses) 14 = 50" by blast
  from t1 have r1': "gainOf (- 1) = 0" by simp
  from t2 l2 have r2: "seedLoop mixedCloses 14 1 (0, 0) = (14, 0)"
    and r3: "smoothLoop mixedCloses 14 15 (1, 0) = (197 / 196, 13 / 196)"
    and r4: "calculateRSI mixedCloses 14 = 1970 / 21"
    by (simp_all add: sg sl dr sp wilderStep_def gainOf_def lossOf_def)
  from t2 have r4': "lossOf 2 = 0" by simp
  from t3 l3 have r5: "calculateRSI risingCloses 14 = 100" by blast
  from l1 l2 l3 r1 r1' r2 r3 r4 r4' r5 show ?thesis by simp
qed

section \<open>Properties of the price formatting\<close>

declare decimal.simps [simp del]

text \<open>
  The digits of a number are digits, and reading them back gives the number; zeros on the
  left do not change what a text of digits denotes.
\<close>

lemma digitChar_cases:
  assumes "d < 10"
  shows "isDigit (digitChar d) \<and> digitValue (digitChar d) = d"
proof -
  from assms have "d = 0 \<or> d = 1 \<or> d = 2 \<or> d = 3 \<or> d = 4 \<or> d = 5 \<or> d = 6 \<or> d = 7 \<or> d = 8 \<or> d = 9"
    by arith
  then show ?thesis
    by (elim disjE) (simp_all add: isDigit_def digitValue_def digitChar_def)
qed

lemma decimal_digits: "\<forall>c \<in> set (decimal n). isDigit c"
proof (induction n rule: decimal.induct)
  case (1 n)
  show ?case
  proof (cases "n < 10")
    case True
    then show ?thesis
      by (subst decimal.simps) (simp add: digitChar_cases)
  next
    case False
    have "n mod 10 < 10" by simp
    with False "1.IH" show ?thesis
      by (subst decimal.simps) (simp add: digitChar_cases)
  qed
qed

lemma decimal_nonempty: "decimal n \<noteq> []"
  by (subst decimal.simps) simp

lemma digitsValue_snoc: "digitsValue (cs @ [c]) = 10 * digitsValue cs + digitValue c"
  by (simp add: digitsValue_def)

lemma digitsValue_decimal: "digitsValue (decimal n) = n"
proof (induction n rule: decimal.induct)
  case (1 n)
  show ?case
  proof (cases "n < 10")
    case True
    then show ?thesis
      by (subst decimal.simps) (simp add: digitsValue_def digitChar_cases)
  next
    case False
    have "n mod 10 < 10" by simp
    then have "digitValue (digitChar (n mod 10)) = n mod 10"
      by (simp add: digitChar_cases)
    with False "1.IH" show ?thesis
      by (subst decimal.simps) (simp add: digitsValue_snoc)
  qed
qed

lemma digitsValue_zeros: "digitsValue (replicate k CHR ''0'' @ cs) = digitsValue cs"
proof -
  have "foldl (\<lambda>v c. 10 * v + digitValue c) 0 (replicate k CHR ''0'') = 0"
    by (induction k) (simp_all add: digitValue_def)
  then show ?thesis by (simp add: digitsValue_def)
qed

lemma placePoint_shape:
  assumes "m \<noteq> []" and "f \<noteq> 0" and "\<forall>c \<in> set m. isDigit c"
  shows "\<exists>a b. placePoint m f = a @ ''.'' @ b \<and> a \<noteq> [] \<and> length b = f \<and>
           (\<forall>c \<in> set (a @ b). isDigit c) \<and> digitsValue (a @ b) = digitsValue m"
proof -
  define m' where "m' = (if length m \<le> f then replicate (f + 1 - length m) CHR ''0'' @ m else m)"
  define k' where "k' = (if length m \<le> f then f + 1 else length m)"
  have len: "length m' = k'" and big: "f < k'"
    using assms(1) by (auto simp add: m'_def k'_def)
  have dig: "\<forall>c \<in> set m'. isDigit c"
    using assms(3) by (auto simp add: m'_def isDigit_def)
  have val: "digitsValue m' = digitsValue m"
    by (simp add: m'_def digitsValue_zeros)
  have pp: "placePoint m f = take (k' - f) m' @ ''.'' @ drop (k' - f) m'"
    using assms(2) by (simp add: placePoint_def Let_def m'_def k'_def)
  have a: "take (k' - f) m' \<noteq> []" using len big by auto
  have b: "length (drop (k' - f) m') = f" using len big by simp
  have ab: "take (k' - f) m' @ drop (k' - f) m' = m'" by simp
  show ?thesis
    apply (rule exI [of _ "take (k' - f) m'"])
    apply (rule exI [of _ "drop (k' - f) m'"])
    using pp a b dig val unfolding ab by simp
qed

lemma toFixed_nonneg:
  assumes "0 \<le> x" and "x < 10 ^ 21" and "f \<le> 100" and "roundHalfUp x f = n"
  shows "toFixed x f = Fixed (placePoint (if n = 0 then ''0'' else decimal n) f)"
  using assms by (simp add: toFixed_def Let_def)

lemma toFixed_shape:
  assumes "0 \<le> x" and "x < 10 ^ 21" and "f \<le> 100" and "f \<noteq> 0"
  shows "\<exists>a b. toFixed x f = Fixed (a @ ''.'' @ b) \<and> a \<noteq> [] \<and> length b = f \<and>
           (\<forall>c \<in> set (a @ b). isDigit c) \<and> digitsValue (a @ b) = roundHalfUp x f"
proof -
  define m where "m = (if roundHalfUp x f = 0 then ''0'' else decimal (roundHalfUp x f))"
  have t: "toFixed x f = Fixed (placePoint m f)"
    unfolding m_def by (rule toFixed_nonneg [OF assms(1-3) refl])
  have ne: "m \<noteq> []" by (simp add: m_def decimal_nonempty)
  have dg: "\<forall>c \<in> set m. isDigit c"
    using decimal_digits by (simp add: m_def isDigit_def)
  have v: "digitsValue m = roundHalfUp x f"
    by (simp add: m_def digitsValue_decimal) (simp add: digitsValue_def digitValue_def)
  from placePoint_shape [OF ne assms(4) dg] t v show ?thesis by auto
qed

lemma decimal_123: "decimal 123 = ''123''"
  by (subst decimal.simps, simp add: digitChar_def)+

lemma decimal_4560: "decimal 4560 = ''4560''"
  by (subst decimal.simps, simp add: digitChar_def)+

lemma decimal_12340: "decimal 12340 = ''12340''"
  by (subst decimal.simps, simp add: digitChar_def)+

lemma placePoint_123: "placePoint ''123'' 6 = ''0.000123''"
  by (simp add: placePoint_def numeral_eq_Suc)

lemma placePoint_4560: "placePoint ''4560'' 4 = ''0.4560''"
  by (simp add: placePoint_def)

lemma placePoint_12340: "placePoint ''12340'' 2 = ''123.40''"
  by (simp add: placePoint_def)

lemma toFixed_eval:
  assumes "0 \<le> x" and "x < 10 ^ 21" and "f \<le> 100" and "roundHalfUp x f = n" and "n \<noteq> 0"
    and "decimal n = m" and "placePoint m f = t"
  shows "toFixed x f = Fixed t"
  using toFixed_nonneg [OF assms(1-4)] assms(5-7) by simp

lemma formatPrice_examples:
  "formatPrice 0.000123 = Fixed ''0.000123'' \<and>
   formatPrice 0.456 = Fixed ''0.4560'' \<and>
   formatPrice 123.4 = Fixed ''123.40'' \<and>
   formatPrice (2268949521066275 / 2 ^ 64) = Fixed ''0.000123'' \<and>
   formatPrice (8214565720323785 / 2 ^ 54) = Fixed ''0.4560'' \<and>
   formatPrice (4341751515761869 / 2 ^ 45) = Fixed ''123.40''"
proof -
  have a: "toFixed 0.000123 6 = Fixed ''0.000123''"
    by (rule toFixed_eval [OF _ _ _ _ _ decimal_123 placePoint_123])
      (simp_all add: roundHalfUp_def)
  have b: "toFixed 0.456 4 = Fixed ''0.4560''"
    by (rule toFixed_eval [OF _ _ _ _ _ decimal_4560 placePoint_4560])
      (simp_all add: roundHalfUp_def)
  have c: "toFixed 123.4 2 = Fixed ''123.40''"
    by (rule toFixed_eval [OF _ _ _ _ _ decimal_12340 placePoint_12340])
      (simp_all add: roundHalfUp_def)
  have a': "toFixed (2268949521066275 / 2 ^ 64) 6 = Fixed ''0.000123''"
    by (rule toFixed_eval [OF _ _ _ _ _ decimal_123 placePoint_123])
      (simp_all add: roundHalfUp_def)
  have b': "toFixed (8214565720323785 / 2 ^ 54) 4 = Fixed ''0.4560''"
    by (rule toFixed_eval [OF _ _ _ _ _ decimal_4560 placePoint_4560])
      (simp_all add: roundHalfUp_def)
  have c': "toFixed (4341751515761869 / 2 ^ 45) 2 = Fixed ''123.40''"
    by (rule toFixed_eval [OF _ _ _ _ _ decimal_12340 placePoint_12340])
      (simp_all add: roundHalfUp_def)
  have "formatPrice 0.000123 = toFixed 0.000123 6"
    "formatPrice 0.456 = toFixed 0.456 4"
    "formatPrice 123.4 = toFixed 123.4 2"
    "formatPrice (2268949521066275 / 2 ^ 64) = toFixed (2268949521066275 / 2 ^ 64) 6"
    "formatPrice (8214565720323785 / 2 ^ 54) = toFixed (8214565720323785 / 2 ^ 54) 4"
    "formatPrice (4341751515761869 / 2 ^ 45) = toFixed (4341751515761869 / 2 ^ 45) 2"
    by (simp_all add: formatPrice_def)
  with a b c a' b' c' show ?thesis by simp
qed

text \<open>
  Claim C9, as the source has it. For every price \<open>p\<close> with \<open>0 \<le> p < 10\<^sup>2\<^sup>1\<close> the text
  of \<^verbatim>\<open>formatPrice\<close> is a non-empty run of digits, a point and a run of digits of
  length 6 when \<open>p < 0.01\<close>, else 4 when \<open>p < 1\<close>, else 2; read without the point, the
  digits are \<open>p\<close> scaled by that power of ten and rounded to the nearest integer, halves
  up. In particular 0.000123 gives \<^verbatim>\<open>"0.000123"\<close>, 0.456 gives \<^verbatim>\<open>"0.4560"\<close> and
  123.4 gives \<^verbatim>\<open>"123.40"\<close>, for the decimal numbers as for the doubles nearest to
  them (the last three lines).
\<close>

theorem formatPrice_by_magnitude:
  "(0 \<le> p \<and> p < 10 ^ 21 \<longrightarrow>
     (\<exists>a b. formatPrice p = Fixed (a @ ''.'' @ b) \<and> a \<noteq> [] \<and>
        (\<forall>c \<in> set (a @ b). isDigit c) \<and>
        length b = (if p < 1 / 100 then 6 else if p < 1 then 4 else 2) \<and>
        digitsValue (a @ b) = roundHalfUp p (length b))) \<and>
   formatPrice 0.000123 = Fixed ''0.000123'' \<and>
   formatPrice 0.456 = Fixed ''0.4560'' \<and>
   formatPrice 123.4 = Fixed ''123.40'' \<and>
   formatPrice (2268949521066275 / 2 ^ 64) = Fixed ''0.000123'' \<and>
   formatPrice (8214565720323785 / 2 ^ 54) = Fixed ''0.4560'' \<and>
   formatPrice (4341751515761869 / 2 ^ 45) = Fixed ''123.40''"
proof -
  have "\<exists>a b. formatPrice p = Fixed (a @ ''.'' @ b) \<and> a \<noteq> [] \<and>
        (\<forall>c \<in> set (a @ b). isDigit c) \<and>
        length b = (if p < 1 / 100 then 6 else if p < 1 then 4 else 2) \<and>
        digitsValue (a @ b) = roundHalfUp p (length b)"
    if h: "0 \<le> p" "p < 10 ^ 21"
  proof -
    define f :: nat where "f = (if p < 1 / 100 then 6 else if p < 1 then 4 else 2)"
    have fp: "formatPrice p = toFixed p f"
      by (simp add: formatPrice_def f_def)
    have f: "f \<le> 100" "f \<noteq> 0"
      by (simp_all add: f_def)
    from toFixed_shape [OF h f] obtain a b where
      "toFixed p f = Fixed (a @ ''.'' @ b)" "a \<noteq> []" "length b = f"
      "\<forall>c \<in> set (a @ b). isDigit c" "digitsValue (a @ b) = roundHalfUp p f"
      by blast
    then show ?thesis
      unfolding fp f_def [symmetric] by blast
  qed
  with formatPrice_examples show ?thesis by blast
qed

theorem formatPrice_by_magnitude_witness:
  "(0::real) \<le> 123.4 \<and> (123.4::real) < 10 ^ 21 \<and>
   (\<exists>a b. formatPrice 123.4 = Fixed (a @ ''.'' @ b) \<and> a \<noteq> [] \<and> length b = 2 \<and>
      digitsValue (a @ b) = 12340)"
proof -
  have h: "(0::real) \<le> 123.4 \<and> (123.4::real) < 10 ^ 21" by simp
  have r: "roundHalfUp 123.4 2 = 12340" by (simp add: roundHalfUp_def)
  from formatPrice_by_magnitude [of "123.4"] h obtain a b where
    "formatPrice 123.4 = Fixed (a @ ''.'' @ b)" "a \<noteq> []" "length b = 2"
    "digitsValue (a @ b) = roundHalfUp 123.4 (length b)"
    by auto
  with r h show ?thesis by auto
qed

text \<open>
  The claim as it was stated, for every non-negative price, fails from \<open>10\<^sup>2\<^sup>1\<close> on:
  there \<^verbatim>\<open>toFixed(2)\<close> does not produce two fraction digits but the exponent notation
  of \<^verbatim>\<open>ToString\<close>.
\<close>

theorem formatPrice_huge_counterexample:
  "(0::real) \<le> 10 ^ 21 \<and> \<not> (10 ^ 21 < (1::real)) \<and>
   formatPrice (10 ^ 21) = ViaToString (10 ^ 21)"
  by (simp add: formatPrice_def toFixed_def)
section \<open>Properties of the signal generator\<close>

subsection \<open>What the gate has tested\<close>














subsection \<open>One open signal per coin\<close>




subsection \<open>An id carries its timestamp\<close>












subsection \<open>The history stays in order\<close>


























subsection \<open>The concrete runs\<close>
















subsection \<open>The dedup gate\<close>




end
